theory Spec2Isabelle
  imports Complex_Main "HOL-Library.Word"
begin

section \<open>JavaScript strings\<close>

text \<open>
  A JavaScript string is a sequence of UTF-16 code units: \<open>length\<close> counts code units,
  \<open>s[i]\<close> reads one code unit and \<open>===\<close> compares the sequences.  A character outside
  the Basic Multilingual Plane occupies two code units (a surrogate pair).
\<close>

type_synonym jsstring = "16 word list"

definition js_lit :: "string \<Rightarrow> jsstring" where
  "js_lit s = map of_char s"

text \<open>
  \<open>String.prototype.trim\<close> removes the ECMAScript WhiteSpace and LineTerminator code
  points from both ends; all of them lie in the Basic Multilingual Plane.
\<close>

definition is_js_space :: "16 word \<Rightarrow> bool" where
  "is_js_space c \<longleftrightarrow>
     c \<in> {0x0009, 0x000A, 0x000B, 0x000C, 0x000D, 0x0020, 0x00A0, 0x1680,
          0x2028, 0x2029, 0x202F, 0x205F, 0x3000, 0xFEFF}
     \<or> (0x2000 \<le> c \<and> c \<le> 0x200A)"

definition trim :: "jsstring \<Rightarrow> jsstring" where
  "trim s = rev (dropWhile is_js_space (rev (dropWhile is_js_space s)))"

text \<open>
  \<open>str || ''\<close>: \<open>None\<close> stands for \<open>null\<close> or \<open>undefined\<close>; the empty string is falsy
  too and is replaced by itself.
\<close>

definition or_empty :: "jsstring option \<Rightarrow> jsstring" where
  "or_empty v = (case v of None \<Rightarrow> [] | Some s \<Rightarrow> s)"

section \<open>Values, errors and the host\<close>

text \<open>
  Values that come out of \<open>JSON.parse\<close> or of a property read.  An object is the list of
  its own properties.  A number carries the exact value of the double it stands for.
\<close>

datatype jsval =
    JUndefined
  | JNull
  | JBool bool
  | JNum rat
  | JStr jsstring
  | JArr "jsval list"
  | JObj "(jsstring \<times> jsval) list"

text \<open>
  What the source can throw: a \<open>TypeError\<close> (a property of \<open>undefined\<close> or \<open>null\<close>, a
  call of something that is not a function), the \<open>SyntaxError\<close> of \<open>JSON.parse\<close>, a
  failed file read and a failed HTTP request, the last two with the message of the error
  object.
\<close>

datatype js_error =
    TypeError
  | SyntaxError
  | FileError jsstring
  | RequestError jsstring

text \<open>
  The built-ins of the JavaScript host that the source calls and that are no code of the
  repository.  They are parameters of the model, and the general theorems hold for every
  host:
  \<^item> \<open>toLowerCase\<close>: \<open>String.prototype.toLowerCase\<close> (the Unicode case tables);
  \<^item> \<open>parseFloat_text\<close>: \<open>parseFloat\<close> on a non-empty string, \<open>None\<close> for \<open>NaN\<close>;
  \<open>Infinity\<close> is not represented;
  \<^item> \<open>iso_date\<close>: \<open>new Date(s).toISOString().split('T')[0]\<close>, \<open>None\<close> when
  \<open>toISOString\<close> throws its \<open>RangeError\<close> (an invalid date);
  \<^item> \<open>JSON_parse\<close>: \<open>JSON.parse\<close>, \<open>None\<close> when it throws its \<open>SyntaxError\<close>;
  \<^item> \<open>to_number_text\<close>: the conversion to a number of a string, an array or an object
  (as the operator \<open>>\<close> performs it), \<open>None\<close> for \<open>NaN\<close>;
  \<^item> \<open>error_message\<close>: the \<open>message\<close> of the error object that is thrown.
\<close>

record js_host =
  toLowerCase :: "jsstring \<Rightarrow> jsstring"
  parseFloat_text :: "jsstring \<Rightarrow> rat option"
  iso_date :: "jsstring \<Rightarrow> jsstring option"
  JSON_parse :: "jsstring \<Rightarrow> jsval option"
  to_number_text :: "jsval \<Rightarrow> rat option"
  error_message :: "js_error \<Rightarrow> jsstring"

text \<open>
  JavaScript numbers are IEEE-754 doubles; the model computes with exact rationals.
  String lengths and edit costs are small integers, exact in a double, and the quotient
  of two of them is rounded to the nearest double, which keeps it in \<open>[0, 1]\<close> and (for
  lengths below \<open>2^50\<close>) keeps the outcome of its comparison with the literals \<open>0.7\<close>
  and \<open>0.9\<close>; a double is greater than the literal \<open>0.7\<close> exactly when its value is
  greater than \<open>7/10\<close>.  On amounts the rounding of the double arithmetic is not modelled
  (in the source \<open>Math.abs(0.03 - 0.02) < 0.01\<close> holds); the theorems below use amounts
  only where the doubles are exact (absent or zero) or hold for either outcome of the
  amount comparison.
\<close>

section \<open>stringSimilarity\<close>

text \<open>
  The array \<open>costs\<close> starts empty and grows by assignment at the index equal to its
  length (row \<open>i = 0\<close>); every later assignment and every read is inside the array
  (\<open>dp_costs_table\<close> below gives its contents after each row).
\<close>

definition arr_set :: "nat list \<Rightarrow> nat \<Rightarrow> nat \<Rightarrow> nat list" where
  "arr_set xs j v = (if j < length xs then xs[j := v] else xs @ [v])"

text \<open>The body of the inner \<open>for\<close> loop, on the loop state \<open>(costs, lastValue)\<close>.\<close>

definition inner_step ::
  "jsstring \<Rightarrow> jsstring \<Rightarrow> nat \<Rightarrow> nat list \<times> nat \<Rightarrow> nat \<Rightarrow> nat list \<times> nat" where
  "inner_step shorter longer i st j =
     (case st of (costs, lastValue) \<Rightarrow>
        if i = 0 then (arr_set costs j j, lastValue)
        else if j > 0 then
          (let newValue = costs ! (j - 1);
               newValue = (if shorter ! (i - 1) \<noteq> longer ! (j - 1)
                           then min (min newValue lastValue) (costs ! j) + 1
                           else newValue)
           in (arr_set costs (j - 1) lastValue, newValue))
        else (costs, lastValue))"

text \<open>The inner loop runs \<open>j\<close> from 0 to \<open>longer.length\<close>, starting with \<open>lastValue = i\<close>.\<close>

definition inner_loop :: "jsstring \<Rightarrow> jsstring \<Rightarrow> nat \<Rightarrow> nat list \<Rightarrow> nat list \<times> nat" where
  "inner_loop shorter longer i costs =
     foldl (inner_step shorter longer i) (costs, i) [0..<Suc (length longer)]"

text \<open>
  One iteration of the outer loop.  The assignment \<open>costs[longer.length] = lastValue\<close>
  after the inner loop is executed for every \<open>i\<close>, including \<open>i = 0\<close>.
\<close>

definition outer_step :: "jsstring \<Rightarrow> jsstring \<Rightarrow> nat list \<Rightarrow> nat \<Rightarrow> nat list" where
  "outer_step shorter longer costs i =
     (case inner_loop shorter longer i costs of
        (costs', lastValue) \<Rightarrow> arr_set costs' (length longer) lastValue)"

definition dp_costs :: "jsstring \<Rightarrow> jsstring \<Rightarrow> nat list" where
  "dp_costs shorter longer =
     foldl (outer_step shorter longer) [] [0..<Suc (length shorter)]"

definition stringSimilarity :: "js_host \<Rightarrow> jsstring option \<Rightarrow> jsstring option \<Rightarrow> rat" where
  "stringSimilarity h str1 str2 =
     (let s1 = trim (toLowerCase h (or_empty str1));
          s2 = trim (toLowerCase h (or_empty str2))
      in if s1 = s2 then 1
         else if length s1 = 0 \<or> length s2 = 0 then 0
         else
           (let longer = (if length s1 > length s2 then s1 else s2);
                shorter = (if length s1 > length s2 then s2 else s1);
                costs = dp_costs shorter longer
            in (of_nat (length longer) - of_nat (costs ! length longer))
                 / of_nat (length longer)))"

text \<open>
  The table that the two loops fill: \<open>code_table s l i j\<close> is the content of \<open>costs[j]\<close>
  after row \<open>i\<close>.  Row 0 ends with \<open>costs[longer.length] = 0\<close>.
\<close>

fun code_table :: "'a list \<Rightarrow> 'a list \<Rightarrow> nat \<Rightarrow> nat \<Rightarrow> nat" where
  "code_table s l 0 j = (if j = length l then 0 else j)"
| "code_table s l (Suc i) 0 = Suc i"
| "code_table s l (Suc i) (Suc j) =
     (if s ! i \<noteq> l ! j
      then min (min (code_table s l i j) (code_table s l (Suc i) j)) (code_table s l i (Suc j)) + 1
      else code_table s l i j)"

definition row_mix :: "'a list \<Rightarrow> 'a list \<Rightarrow> nat \<Rightarrow> nat \<Rightarrow> nat list" where
  "row_mix s l i n =
     map (\<lambda>k. if k < n then code_table s l (Suc i) k else code_table s l i k)
       [0..<Suc (length l)]"

subsection \<open>The distance and the similarity of the specification\<close>

text \<open>
  The classic unit-cost Levenshtein distance, by the standard recurrence of the dynamic
  program: \<open>lev_table a b i j\<close> is the distance between the first \<open>i\<close> elements of \<open>a\<close>
  and the first \<open>j\<close> elements of \<open>b\<close>; insertion, deletion and substitution cost 1.
\<close>

fun lev_table :: "'a list \<Rightarrow> 'a list \<Rightarrow> nat \<Rightarrow> nat \<Rightarrow> nat" where
  "lev_table a b 0 j = j"
| "lev_table a b (Suc i) 0 = Suc i"
| "lev_table a b (Suc i) (Suc j) =
     min (min (lev_table a b i (Suc j) + 1) (lev_table a b (Suc i) j + 1))
         (lev_table a b i j + (if a ! i = b ! j then 0 else 1))"

definition levenshtein :: "'a list \<Rightarrow> 'a list \<Rightarrow> nat" where
  "levenshtein a b = lev_table a b (length a) (length b)"

text \<open>The code points of a string: a high surrogate followed by a low one is one code point.\<close>

fun codepoints :: "jsstring \<Rightarrow> nat list" where
  "codepoints [] = []"
| "codepoints [c] = [unat c]"
| "codepoints (c # d # cs) =
     (if 0xD800 \<le> c \<and> c \<le> 0xDBFF \<and> 0xDC00 \<le> d \<and> d \<le> 0xDFFF
      then (0x10000 + (unat c - 0xD800) * 0x400 + (unat d - 0xDC00)) # codepoints cs
      else unat c # codepoints (d # cs))"

text \<open>
  The similarity as the specification words it: case-fold and trim, equal strings give 1,
  an empty one gives 0, otherwise \<open>(max len - distance) / max len\<close>, by code point.
\<close>

definition spec_similarity :: "js_host \<Rightarrow> jsstring \<Rightarrow> jsstring \<Rightarrow> rat" where
  "spec_similarity h a b =
     (let p = codepoints (trim (toLowerCase h a));
          q = codepoints (trim (toLowerCase h b));
          n = max (length p) (length q)
      in if p = q then 1
         else if p = [] \<or> q = [] then 0
         else (of_nat n - of_nat (levenshtein p q)) / of_nat n)"

section \<open>The candidate matcher\<close>

text \<open>
  The OCR data of a receipt, as the matcher reads it.  An amount is absent (\<open>undefined\<close>
  or \<open>null\<close>), a number or a string; a date and a merchant are absent or strings.
\<close>

datatype js_amount = AmtAbsent | AmtNum rat | AmtStr jsstring

record receipt_item =
  item_name :: "jsstring option"

record receipt_data =
  amount :: js_amount
  date :: "jsstring option"
  merchant :: "jsstring option"
  items :: "receipt_item list option"

text \<open>A row of the table \<open>receipts\<close>, with the columns that the matcher reads.\<close>

record db_row =
  row_id :: jsstring
  user_id :: jsstring
  ocr_data :: "receipt_data option"
  duplicate_of :: "jsstring option"
  uploaded_at :: jsstring
  row_status :: jsstring
  file_path :: "jsstring option"

record match_result =
  match_id :: jsstring
  match_userId :: jsstring
  confidence :: nat
  reasons :: "jsstring list"
  merchantSimilarity :: rat
  ocrData :: receipt_data
  uploadedAt :: jsstring
  status :: jsstring
  filePath :: "jsstring option"

text \<open>The parameters of the query: the two bounds and, when \<open>userId\<close> is truthy, the user.\<close>

record db_query =
  min_amount :: "rat option"
  max_amount :: "rat option"
  query_user :: "jsstring option"

text \<open>Truthiness of a value that is absent or a string: the empty string is falsy.\<close>

definition truthy_text :: "jsstring option \<Rightarrow> bool" where
  "truthy_text v = (case v of None \<Rightarrow> False | Some s \<Rightarrow> s \<noteq> [])"

text \<open>
  \<open>Math.round(parseFloat(amount || 0) * 100) / 100\<close>.  \<open>Math.round\<close> rounds to the
  nearest integer, a tie upwards.  \<open>None\<close> is \<open>NaN\<close>.
\<close>

definition normalizeAmount :: "js_host \<Rightarrow> js_amount \<Rightarrow> rat option" where
  "normalizeAmount h a =
     (let parsed =
        (case a of
           AmtAbsent \<Rightarrow> Some 0
         | AmtNum q \<Rightarrow> Some q
         | AmtStr s \<Rightarrow> if s = [] then Some 0 else parseFloat_text h s)
      in case parsed of
           None \<Rightarrow> None
         | Some q \<Rightarrow> Some (of_int \<lfloor>q * 100 + 1 / 2\<rfloor> / 100))"

definition normalizeDate :: "js_host \<Rightarrow> jsstring option \<Rightarrow> jsstring option" where
  "normalizeDate h dateStr =
     (if \<not> truthy_text dateStr then None
      else iso_date h (or_empty dateStr))"

definition empty_ocr :: receipt_data where
  "empty_ocr = \<lparr>amount = AmtAbsent, date = None, merchant = None, items = None\<rparr>"

text \<open>\<open>existing.ocr_data || {}\<close>\<close>

definition existingOcr :: "db_row \<Rightarrow> receipt_data" where
  "existingOcr existing = (case ocr_data existing of None \<Rightarrow> empty_ocr | Some d \<Rightarrow> d)"

text \<open>\<open>Math.abs(newAmount - normalizeAmount(existingOcr.amount)) < 0.01\<close>; false on \<open>NaN\<close>.\<close>

definition amountMatch :: "js_host \<Rightarrow> receipt_data \<Rightarrow> db_row \<Rightarrow> bool" where
  "amountMatch h newReceipt existing =
     (case (normalizeAmount h (amount newReceipt),
            normalizeAmount h (amount (existingOcr existing))) of
        (Some x, Some y) \<Rightarrow> \<bar>x - y\<bar> < 1 / 100
      | _ \<Rightarrow> False)"

text \<open>\<open>newDate && existingDate && newDate === existingDate\<close>, as the \<open>if\<close> reads it.\<close>

definition dateMatch :: "js_host \<Rightarrow> receipt_data \<Rightarrow> db_row \<Rightarrow> bool" where
  "dateMatch h newReceipt existing =
     (let newDate = normalizeDate h (date newReceipt);
          existingDate = normalizeDate h (date (existingOcr existing))
      in truthy_text newDate \<and> truthy_text existingDate \<and> newDate = existingDate)"

definition merchant_similarity :: "js_host \<Rightarrow> receipt_data \<Rightarrow> db_row \<Rightarrow> rat" where
  "merchant_similarity h newReceipt existing =
     (let newMerchant = toLowerCase h (or_empty (merchant newReceipt));
          existingMerchant = toLowerCase h (or_empty (merchant (existingOcr existing)))
      in stringSimilarity h (Some newMerchant) (Some existingMerchant))"

definition merchantMatch :: "js_host \<Rightarrow> receipt_data \<Rightarrow> db_row \<Rightarrow> bool" where
  "merchantMatch h newReceipt existing \<longleftrightarrow> merchant_similarity h newReceipt existing > 7 / 10"

text \<open>
  The three \<open>if\<close> statements that add to \<open>confidence\<close> and push onto \<open>reasons\<close>, one
  after the other, from \<open>confidence = 0\<close> and \<open>reasons = []\<close>; the state is the pair
  \<open>(confidence, reasons)\<close>.
\<close>

definition add_amount :: "bool \<Rightarrow> nat \<times> jsstring list \<Rightarrow> nat \<times> jsstring list" where
  "add_amount am st =
     (case st of (c, rs) \<Rightarrow>
        if am then (c + 40, rs @ [js_lit ''Same amount'']) else st)"

definition add_date :: "bool \<Rightarrow> nat \<times> jsstring list \<Rightarrow> nat \<times> jsstring list" where
  "add_date dm st =
     (case st of (c, rs) \<Rightarrow>
        if dm then (c + 35, rs @ [js_lit ''Same date'']) else st)"

definition add_merchant :: "rat \<Rightarrow> nat \<times> jsstring list \<Rightarrow> nat \<times> jsstring list" where
  "add_merchant sim st =
     (case st of (c, rs) \<Rightarrow>
        if sim > 7 / 10
        then (c + 25,
              rs @ [if sim > 9 / 10 then js_lit ''Same merchant''
                    else js_lit ''Similar merchant''])
        else st)"

definition tally :: "js_host \<Rightarrow> receipt_data \<Rightarrow> db_row \<Rightarrow> nat \<times> jsstring list" where
  "tally h newReceipt existing =
     add_merchant (merchant_similarity h newReceipt existing)
       (add_date (dateMatch h newReceipt existing)
          (add_amount (amountMatch h newReceipt existing) (0, [])))"

text \<open>
  The body of the loop over \<open>result.rows\<close>: \<open>None\<close> when the row is skipped
  (\<open>duplicate_of\<close> is truthy) or its confidence is below 60, otherwise the object that
  is pushed onto \<open>duplicates\<close>.
\<close>

definition score_row :: "js_host \<Rightarrow> receipt_data \<Rightarrow> db_row \<Rightarrow> match_result option" where
  "score_row h newReceipt existing =
     (if truthy_text (duplicate_of existing) then None
      else
        (case tally h newReceipt existing of (c, rs) \<Rightarrow>
           if c \<ge> 60
           then Some \<lparr>match_id = row_id existing,
                      match_userId = user_id existing,
                      confidence = c,
                      reasons = rs,
                      merchantSimilarity = merchant_similarity h newReceipt existing,
                      ocrData = existingOcr existing,
                      uploadedAt = uploaded_at existing,
                      status = row_status existing,
                      filePath = file_path existing\<rparr>
           else None))"

definition push_row ::
  "js_host \<Rightarrow> receipt_data \<Rightarrow> match_result list \<Rightarrow> db_row \<Rightarrow> match_result list" where
  "push_row h newReceipt duplicates existing =
     (case score_row h newReceipt existing of
        None \<Rightarrow> duplicates
      | Some m \<Rightarrow> duplicates @ [m])"

definition scan_rows :: "js_host \<Rightarrow> receipt_data \<Rightarrow> db_row list \<Rightarrow> match_result list" where
  "scan_rows h newReceipt rows = foldl (push_row h newReceipt) [] rows"

text \<open>
  \<open>duplicates.sort((a, b) => b.confidence - a.confidence)\<close>: \<open>Array.prototype.sort\<close> is
  stable (ECMAScript 2019), so it is the stable sort by descending confidence.
\<close>

definition sort_by_confidence :: "match_result list \<Rightarrow> match_result list" where
  "sort_by_confidence duplicates = sort_key (\<lambda>m. - int (confidence m)) duplicates"

definition duplicate_query :: "js_host \<Rightarrow> receipt_data \<Rightarrow> jsstring option \<Rightarrow> db_query" where
  "duplicate_query h newReceipt userId =
     (let newAmount = normalizeAmount h (amount newReceipt)
      in \<lparr>min_amount = map_option (\<lambda>a. a * (95 / 100)) newAmount,
          max_amount = map_option (\<lambda>a. a * (105 / 100)) newAmount,
          query_user = (if truthy_text userId then userId else None)\<rparr>)"

text \<open>
  \<open>db\<close> answers the query with the rows it selects (at most 50), or rejects; a rejected
  query leaves \<open>findPotentialDuplicates\<close> with that error.
\<close>

definition findPotentialDuplicates ::
  "js_host \<Rightarrow> (db_query \<Rightarrow> js_error + db_row list) \<Rightarrow> receipt_data \<Rightarrow> jsstring option
     \<Rightarrow> js_error + match_result list" where
  "findPotentialDuplicates h db newReceipt userId =
     (case db (duplicate_query h newReceipt userId) of
        Inl e \<Rightarrow> Inl e
      | Inr rows \<Rightarrow> Inr (sort_by_confidence (scan_rows h newReceipt rows)))"

section \<open>The deep duplicate analyzer\<close>

text \<open>
  Reading a property whose name is neither an index nor inherited from a prototype
  (\<open>choices\<close>, \<open>message\<close>, \<open>content\<close>, \<open>isDuplicate\<close>, \<open>confidence\<close>,
  \<open>matchedReceiptId\<close>): a \<open>TypeError\<close> on \<open>undefined\<close> and \<open>null\<close>, the own property of
  an object, \<open>undefined\<close> otherwise.
\<close>

definition js_get :: "jsval \<Rightarrow> jsstring \<Rightarrow> js_error + jsval" where
  "js_get v k =
     (case v of
        JUndefined \<Rightarrow> Inl TypeError
      | JNull \<Rightarrow> Inl TypeError
      | JObj kvs \<Rightarrow> Inr (case map_of kvs k of None \<Rightarrow> JUndefined | Some x \<Rightarrow> x)
      | _ \<Rightarrow> Inr JUndefined)"

text \<open>\<open>v[0]\<close>: the first element of an array, the first code unit of a string.\<close>

definition js_first :: "jsval \<Rightarrow> js_error + jsval" where
  "js_first v =
     (case v of
        JUndefined \<Rightarrow> Inl TypeError
      | JNull \<Rightarrow> Inl TypeError
      | JArr xs \<Rightarrow> Inr (case xs of [] \<Rightarrow> JUndefined | x # _ \<Rightarrow> x)
      | JStr s \<Rightarrow> Inr (case s of [] \<Rightarrow> JUndefined | c # _ \<Rightarrow> JStr [c])
      | JObj kvs \<Rightarrow> Inr (case map_of kvs (js_lit ''0'') of None \<Rightarrow> JUndefined | Some x \<Rightarrow> x)
      | _ \<Rightarrow> Inr JUndefined)"

definition js_truthy :: "jsval \<Rightarrow> bool" where
  "js_truthy v =
     (case v of
        JUndefined \<Rightarrow> False
      | JNull \<Rightarrow> False
      | JBool b \<Rightarrow> b
      | JNum q \<Rightarrow> q \<noteq> 0
      | JStr s \<Rightarrow> s \<noteq> []
      | _ \<Rightarrow> True)"

text \<open>\<open>Array.prototype.join\<close> on strings.\<close>

fun js_join :: "jsstring \<Rightarrow> jsstring list \<Rightarrow> jsstring" where
  "js_join sep [] = []"
| "js_join sep [x] = x"
| "js_join sep (x # y # ys) = x @ sep @ js_join sep (y # ys)"

text \<open>An element of \<open>existingData\<close>; a missing item name joins as the empty string.\<close>

record receipt_summary =
  summary_id :: jsstring
  summary_merchant :: "jsstring option"
  summary_amount :: js_amount
  summary_date :: "jsstring option"
  summary_items :: "jsstring option"

definition summarize :: "match_result \<Rightarrow> receipt_summary" where
  "summarize r =
     \<lparr>summary_id = match_id r,
      summary_merchant = merchant (ocrData r),
      summary_amount = amount (ocrData r),
      summary_date = date (ocrData r),
      summary_items =
        map_option (\<lambda>is. js_join (js_lit '', '') (map (\<lambda>i. or_empty (item_name i)) is))
          (items (ocrData r))\<rparr>"

text \<open>
  What the request to the provider is built from: the bytes of the image and
  \<open>existingData\<close>.  The prompt and the base64 text are fixed by them; \<open>post\<close> stands
  for \<open>axios.post\<close> with the configuration of the provider, and answers with
  \<open>response.data\<close> or fails (a timeout, a network error, a missing configuration).
\<close>

record analysis_request =
  request_image :: "8 word list"
  request_receipts :: "receipt_summary list"

text \<open>
  \<open>content.match(/\{[\s\S]*\}/)\<close>: the match starts at the first \<open>{\<close> and, the star being
  greedy, ends at the last \<open>}\<close> behind it; there is none when no \<open>}\<close> follows the first
  \<open>{\<close>.
\<close>

definition brace_span :: "jsstring \<Rightarrow> jsstring option" where
  "brace_span content =
     (let from_open = dropWhile (\<lambda>c. c \<noteq> 0x7B) content;
          to_close = rev (dropWhile (\<lambda>c. c \<noteq> 0x7D) (rev from_open))
      in if to_close = [] then None else Some to_close)"

text \<open>\<open>response.data.choices[0].message.content\<close>\<close>

definition response_content :: "jsval \<Rightarrow> js_error + jsval" where
  "response_content data =
     (case js_get data (js_lit ''choices'') of
        Inl e \<Rightarrow> Inl e
      | Inr choices \<Rightarrow>
          (case js_first choices of
             Inl e \<Rightarrow> Inl e
           | Inr choice \<Rightarrow>
               (case js_get choice (js_lit ''message'') of
                  Inl e \<Rightarrow> Inl e
                | Inr message \<Rightarrow> js_get message (js_lit ''content''))))"

text \<open>Only a string has the method \<open>match\<close>; on any other value the call throws.\<close>

definition match_json :: "jsval \<Rightarrow> js_error + jsstring option" where
  "match_json content =
     (case content of JStr s \<Rightarrow> Inr (brace_span s) | _ \<Rightarrow> Inl TypeError)"

definition not_duplicate_verdict :: jsval where
  "not_duplicate_verdict =
     JObj [(js_lit ''isDuplicate'', JBool False), (js_lit ''confidence'', JNum 0),
           (js_lit ''matches'', JArr [])]"

definition error_verdict :: "js_host \<Rightarrow> js_error \<Rightarrow> jsval" where
  "error_verdict h e =
     JObj [(js_lit ''isDuplicate'', JBool False), (js_lit ''confidence'', JNum 0),
           (js_lit ''error'', JStr (error_message h e))]"

text \<open>The \<open>try\<close> block: \<open>Inl\<close> is what reaches the \<open>catch\<close>.\<close>

definition analysis_try ::
  "js_host \<Rightarrow> (jsstring \<Rightarrow> js_error + 8 word list) \<Rightarrow> (analysis_request \<Rightarrow> js_error + jsval)
     \<Rightarrow> jsstring \<Rightarrow> match_result list \<Rightarrow> js_error + jsval" where
  "analysis_try h readFileSync post imagePath existingReceipts =
     (case readFileSync imagePath of
        Inl e \<Rightarrow> Inl e
      | Inr imageBuffer \<Rightarrow>
          (case post \<lparr>request_image = imageBuffer,
                      request_receipts = map summarize existingReceipts\<rparr> of
             Inl e \<Rightarrow> Inl e
           | Inr data \<Rightarrow>
               (case response_content data of
                  Inl e \<Rightarrow> Inl e
                | Inr content \<Rightarrow>
                    (case match_json content of
                       Inl e \<Rightarrow> Inl e
                     | Inr None \<Rightarrow> Inr not_duplicate_verdict
                     | Inr (Some jsonMatch) \<Rightarrow>
                         (case JSON_parse h jsonMatch of
                            None \<Rightarrow> Inl SyntaxError
                          | Some v \<Rightarrow> Inr v)))))"

text \<open>
  \<open>existingReceipts\<close> is \<open>None\<close> for \<open>null\<close> or \<open>undefined\<close>.  The result is \<open>Inl\<close> when
  the function throws and \<open>Inr\<close> when it returns.
\<close>

definition aiDuplicateAnalysis ::
  "js_host \<Rightarrow> (jsstring \<Rightarrow> js_error + 8 word list) \<Rightarrow> (analysis_request \<Rightarrow> js_error + jsval)
     \<Rightarrow> jsstring \<Rightarrow> match_result list option \<Rightarrow> js_error + jsval" where
  "aiDuplicateAnalysis h readFileSync post imagePath existingReceipts =
     (case existingReceipts of
        None \<Rightarrow> Inr not_duplicate_verdict
      | Some rs \<Rightarrow>
          if length rs = 0 then Inr not_duplicate_verdict
          else
            (case analysis_try h readFileSync post imagePath rs of
               Inl e \<Rightarrow> Inr (error_verdict h e)
             | Inr v \<Rightarrow> Inr v))"

subsection \<open>The first well-formed object of the specification\<close>

text \<open>
  The specification's extraction: the first well-formed JSON object of the body, that
  is, at the leftmost \<open>{\<close> from which some text parses as an object, the shortest such
  text.
\<close>

definition is_object :: "jsval \<Rightarrow> bool" where
  "is_object v = (case v of JObj _ \<Rightarrow> True | _ \<Rightarrow> False)"

definition object_prefix :: "(jsstring \<Rightarrow> jsval option) \<Rightarrow> jsstring \<Rightarrow> jsval option" where
  "object_prefix parse s =
     (case List.find (\<lambda>n. case parse (take n s) of None \<Rightarrow> False | Some v \<Rightarrow> is_object v)
             [1..<Suc (length s)] of
        None \<Rightarrow> None
      | Some n \<Rightarrow> parse (take n s))"

fun first_json_object :: "(jsstring \<Rightarrow> jsval option) \<Rightarrow> jsstring \<Rightarrow> jsval option" where
  "first_json_object parse [] = None"
| "first_json_object parse (c # cs) =
     (if c = 0x7B
      then (case object_prefix parse (c # cs) of
              None \<Rightarrow> first_json_object parse cs
            | Some v \<Rightarrow> Some v)
      else first_json_object parse cs)"

section \<open>The duplicate gate of the upload workflow\<close>

record duplicate_outcome =
  duplicateStatus :: jsstring
  duplicateOf :: jsval
  duplicateConfidence :: jsval

text \<open>The conversion to a number that \<open>>\<close> applies to its left operand.\<close>

definition to_number :: "js_host \<Rightarrow> jsval \<Rightarrow> rat option" where
  "to_number h v =
     (case v of
        JUndefined \<Rightarrow> None
      | JNull \<Rightarrow> Some 0
      | JBool b \<Rightarrow> Some (if b then 1 else 0)
      | JNum q \<Rightarrow> Some q
      | _ \<Rightarrow> to_number_text h v)"

definition js_gt :: "js_host \<Rightarrow> jsval \<Rightarrow> rat \<Rightarrow> bool" where
  "js_gt h v q = (case to_number h v of None \<Rightarrow> False | Some x \<Rightarrow> x > q)"

text \<open>\<open>aiAnalysis.isDuplicate && aiAnalysis.confidence > 0.7\<close>, as the \<open>if\<close> reads it.\<close>

definition verdict_accepted :: "js_host \<Rightarrow> jsval \<Rightarrow> js_error + bool" where
  "verdict_accepted h aiAnalysis =
     (case js_get aiAnalysis (js_lit ''isDuplicate'') of
        Inl e \<Rightarrow> Inl e
      | Inr d \<Rightarrow>
          if js_truthy d
          then (case js_get aiAnalysis (js_lit ''confidence'') of
                  Inl e \<Rightarrow> Inl e
                | Inr c \<Rightarrow> Inr (js_gt h c (7 / 10)))
          else Inr False)"

definition no_duplicate :: duplicate_outcome where
  "no_duplicate =
     \<lparr>duplicateStatus = js_lit ''none'', duplicateOf = JNull, duplicateConfidence = JNum 0\<rparr>"

text \<open>
  The three assignments under the \<open>if\<close>; an error leaves the variables as they are at
  that point, for the \<open>catch\<close> only logs.
\<close>

definition record_duplicate :: "jsval \<Rightarrow> match_result \<Rightarrow> duplicate_outcome" where
  "record_duplicate aiAnalysis first_match =
     (let st = no_duplicate\<lparr>duplicateStatus := js_lit ''detected''\<rparr>
      in case js_get aiAnalysis (js_lit ''matchedReceiptId'') of
           Inl e \<Rightarrow> st
         | Inr m \<Rightarrow>
             (let st = st\<lparr>duplicateOf := (if js_truthy m then m else JStr (match_id first_match))\<rparr>
              in case js_get aiAnalysis (js_lit ''confidence'') of
                   Inl e \<Rightarrow> st
                 | Inr c \<Rightarrow> st\<lparr>duplicateConfidence := c\<rparr>))"

definition upload_duplicate_check ::
  "js_host \<Rightarrow> (jsstring \<Rightarrow> js_error + 8 word list) \<Rightarrow> (analysis_request \<Rightarrow> js_error + jsval)
     \<Rightarrow> jsstring \<Rightarrow> match_result list \<Rightarrow> duplicate_outcome" where
  "upload_duplicate_check h readFileSync post imagePath potentialDuplicates =
     (case potentialDuplicates of
        [] \<Rightarrow> no_duplicate
      | first_match # _ \<Rightarrow>
          if confidence first_match \<ge> 80
          then
            (case aiDuplicateAnalysis h readFileSync post imagePath (Some potentialDuplicates) of
               Inl e \<Rightarrow> no_duplicate
             | Inr aiAnalysis \<Rightarrow>
                 (case verdict_accepted h aiAnalysis of
                    Inl e \<Rightarrow> no_duplicate
                  | Inr ok \<Rightarrow> if ok then record_duplicate aiAnalysis first_match else no_duplicate))
          else no_duplicate)"

section \<open>A reference host for closed examples\<close>

text \<open>
  A concrete host, used where a theorem is applied to concrete input.  It agrees with the
  JavaScript built-ins on the inputs of those examples: letters of the Basic Latin block,
  decimal literals, date-only ISO strings with a day up to 28, and JSON texts.
\<close>

definition ascii_toLowerCase :: "jsstring \<Rightarrow> jsstring" where
  "ascii_toLowerCase s = map (\<lambda>c. if 0x41 \<le> c \<and> c \<le> 0x5A then c + 0x20 else c) s"

definition is_digit :: "16 word \<Rightarrow> bool" where
  "is_digit c \<longleftrightarrow> 0x30 \<le> c \<and> c \<le> 0x39"

definition digits_value :: "jsstring \<Rightarrow> nat" where
  "digits_value ds = foldl (\<lambda>a c. 10 * a + unat (c - 0x30)) 0 ds"

text \<open>An optional exponent part: the factor it stands for, and the rest of the text.\<close>

definition exponent_part :: "jsstring \<Rightarrow> (rat \<times> jsstring) option" where
  "exponent_part s =
     (case s of
        [] \<Rightarrow> None
      | c # cs \<Rightarrow>
          if c = 0x65 \<or> c = 0x45
          then
            (let neg = (case cs of [] \<Rightarrow> False | d # _ \<Rightarrow> d = 0x2D);
                 r = (case cs of [] \<Rightarrow> cs | d # ds \<Rightarrow> if d = 0x2D \<or> d = 0x2B then ds else cs);
                 es = takeWhile is_digit r
             in if es = [] then None
                else Some (if neg then 1 / 10 ^ digits_value es else 10 ^ digits_value es,
                           dropWhile is_digit r))
          else None)"

text \<open>A JSON number: \<open>-? (0 | [1-9][0-9]*) (. [0-9]+)? ([eE] [+-]? [0-9]+)?\<close>.\<close>

definition json_number :: "jsstring \<Rightarrow> (rat \<times> jsstring) option" where
  "json_number s =
     (let neg = (case s of [] \<Rightarrow> False | c # _ \<Rightarrow> c = 0x2D);
          s1 = (if neg then tl s else s);
          ip = takeWhile is_digit s1;
          s2 = dropWhile is_digit s1;
          dot = (case s2 of [] \<Rightarrow> False | c # _ \<Rightarrow> c = 0x2E);
          fp = (if dot then takeWhile is_digit (tl s2) else []);
          s3 = (if dot then dropWhile is_digit (tl s2) else s2);
          mant = of_nat (digits_value ip) + of_nat (digits_value fp) / 10 ^ length fp;
          sgn = (if neg then - 1 else 1)
      in if ip = [] \<or> (length ip > 1 \<and> hd ip = 0x30) \<or> (dot \<and> fp = []) then None
         else (case exponent_part s3 of
                 None \<Rightarrow> Some (sgn * mant, s3)
               | Some (f, s4) \<Rightarrow> Some (sgn * mant * f, s4)))"

definition hex_digit :: "16 word \<Rightarrow> 16 word option" where
  "hex_digit c =
     (if 0x30 \<le> c \<and> c \<le> 0x39 then Some (c - 0x30)
      else if 0x41 \<le> c \<and> c \<le> 0x46 then Some (c - 0x37)
      else if 0x61 \<le> c \<and> c \<le> 0x66 then Some (c - 0x57)
      else None)"

definition hex4 :: "jsstring \<Rightarrow> 16 word option" where
  "hex4 s =
     (case map hex_digit s of
        [Some a, Some b, Some c, Some d] \<Rightarrow> Some (((a * 16 + b) * 16 + c) * 16 + d)
      | _ \<Rightarrow> None)"

definition simple_escape :: "16 word \<Rightarrow> 16 word option" where
  "simple_escape e =
     (if e = 0x22 \<or> e = 0x5C \<or> e = 0x2F then Some e
      else if e = 0x62 then Some 0x08
      else if e = 0x66 then Some 0x0C
      else if e = 0x6E then Some 0x0A
      else if e = 0x72 then Some 0x0D
      else if e = 0x74 then Some 0x09
      else None)"

text \<open>The characters of a JSON string after its opening quote, and the text behind it.\<close>

fun json_chars :: "jsstring \<Rightarrow> (jsstring \<times> jsstring) option" where
  "json_chars [] = None"
| "json_chars (c # cs) =
     (if c = 0x22 then Some ([], cs)
      else if c = 0x5C then
        (case cs of
           [] \<Rightarrow> None
         | e # es \<Rightarrow>
             if e = 0x75 then
               (case hex4 (take 4 es) of
                  None \<Rightarrow> None
                | Some u \<Rightarrow> map_option (\<lambda>(t, r). (u # t, r)) (json_chars (drop 4 es)))
             else
               (case simple_escape e of
                  None \<Rightarrow> None
                | Some d \<Rightarrow> map_option (\<lambda>(t, r). (d # t, r)) (json_chars es)))
      else if c < 0x20 then None
      else map_option (\<lambda>(t, r). (c # t, r)) (json_chars cs))"

definition is_json_ws :: "16 word \<Rightarrow> bool" where
  "is_json_ws c \<longleftrightarrow> c = 0x20 \<or> c = 0x09 \<or> c = 0x0A \<or> c = 0x0D"

definition skip_ws :: "jsstring \<Rightarrow> jsstring" where
  "skip_ws s = dropWhile is_json_ws s"

definition json_literal :: "jsstring \<Rightarrow> (jsval \<times> jsstring) option" where
  "json_literal s =
     (if take 4 s = js_lit ''true'' then Some (JBool True, drop 4 s)
      else if take 5 s = js_lit ''false'' then Some (JBool False, drop 5 s)
      else if take 4 s = js_lit ''null'' then Some (JNull, drop 4 s)
      else (case json_number s of None \<Rightarrow> None | Some (q, r) \<Rightarrow> Some (JNum q, r)))"

text \<open>A later member with the same name replaces the value of the earlier one.\<close>

fun obj_put :: "(jsstring \<times> jsval) list \<Rightarrow> jsstring \<Rightarrow> jsval \<Rightarrow> (jsstring \<times> jsval) list" where
  "obj_put [] k v = [(k, v)]"
| "obj_put ((k', v') # kvs) k v = (if k' = k then (k, v) # kvs else (k', v') # obj_put kvs k v)"

text \<open>
  The recursive descent, with a bound on its depth; \<open>ref_JSON_parse\<close> starts it with more
  than the length of the text, and every call below consumes a code unit first.
\<close>

fun json_value :: "nat \<Rightarrow> jsstring \<Rightarrow> (jsval \<times> jsstring) option"
  and json_members :: "nat \<Rightarrow> (jsstring \<times> jsval) list \<Rightarrow> jsstring \<Rightarrow> (jsval \<times> jsstring) option"
  and json_elements :: "nat \<Rightarrow> jsval list \<Rightarrow> jsstring \<Rightarrow> (jsval \<times> jsstring) option" where
  "json_value 0 s = None"
| "json_value (Suc n) s =
     (case skip_ws s of
        [] \<Rightarrow> None
      | c # cs \<Rightarrow>
          if c = 0x7B then
            (case skip_ws cs of
               [] \<Rightarrow> None
             | d # ds \<Rightarrow> if d = 0x7D then Some (JObj [], ds) else json_members n [] (d # ds))
          else if c = 0x5B then
            (case skip_ws cs of
               [] \<Rightarrow> None
             | d # ds \<Rightarrow> if d = 0x5D then Some (JArr [], ds) else json_elements n [] (d # ds))
          else if c = 0x22 then map_option (\<lambda>(t, r). (JStr t, r)) (json_chars cs)
          else json_literal (c # cs))"
| "json_members 0 acc s = None"
| "json_members (Suc n) acc s =
     (case skip_ws s of
        [] \<Rightarrow> None
      | q # cs \<Rightarrow>
          if q \<noteq> 0x22 then None
          else
            (case json_chars cs of
               None \<Rightarrow> None
             | Some (k, r) \<Rightarrow>
                 (case skip_ws r of
                    [] \<Rightarrow> None
                  | colon # r2 \<Rightarrow>
                      if colon \<noteq> 0x3A then None
                      else
                        (case json_value n r2 of
                           None \<Rightarrow> None
                         | Some (v, r3) \<Rightarrow>
                             (case skip_ws r3 of
                                [] \<Rightarrow> None
                              | e # r4 \<Rightarrow>
                                  if e = 0x2C then json_members n (obj_put acc k v) r4
                                  else if e = 0x7D then Some (JObj (obj_put acc k v), r4)
                                  else None)))))"
| "json_elements 0 acc s = None"
| "json_elements (Suc n) acc s =
     (case json_value n s of
        None \<Rightarrow> None
      | Some (v, r) \<Rightarrow>
          (case skip_ws r of
             [] \<Rightarrow> None
           | e # r2 \<Rightarrow>
               if e = 0x2C then json_elements n (acc @ [v]) r2
               else if e = 0x5D then Some (JArr (acc @ [v]), r2)
               else None))"

definition ref_JSON_parse :: "jsstring \<Rightarrow> jsval option" where
  "ref_JSON_parse s =
     (case json_value (Suc (length s)) s of
        None \<Rightarrow> None
      | Some (v, r) \<Rightarrow> if skip_ws r = [] then Some v else None)"

text \<open>
  A decimal literal at the start of a text, as \<open>parseFloat\<close> reads it: an optional sign,
  digits with an optional fraction or a fraction alone, an optional exponent.
\<close>

definition decimal_prefix :: "jsstring \<Rightarrow> (rat \<times> jsstring) option" where
  "decimal_prefix s =
     (let neg = (case s of [] \<Rightarrow> False | c # _ \<Rightarrow> c = 0x2D);
          s1 = (case s of [] \<Rightarrow> s | c # cs \<Rightarrow> if c = 0x2D \<or> c = 0x2B then cs else s);
          ip = takeWhile is_digit s1;
          s2 = dropWhile is_digit s1;
          dot = (case s2 of [] \<Rightarrow> False | c # _ \<Rightarrow> c = 0x2E);
          fp = (if dot then takeWhile is_digit (tl s2) else []);
          s3 = (if dot then dropWhile is_digit (tl s2) else s2);
          mant = of_nat (digits_value ip) + of_nat (digits_value fp) / 10 ^ length fp;
          sgn = (if neg then - 1 else 1)
      in if ip = [] \<and> fp = [] then None
         else (case exponent_part s3 of
                 None \<Rightarrow> Some (sgn * mant, s3)
               | Some (f, s4) \<Rightarrow> Some (sgn * mant * f, s4)))"

definition ref_parseFloat :: "jsstring \<Rightarrow> rat option" where
  "ref_parseFloat s = map_option fst (decimal_prefix (dropWhile is_js_space s))"

definition ref_string_to_number :: "jsstring \<Rightarrow> rat option" where
  "ref_string_to_number s =
     (let t = trim s
      in if t = [] then Some 0
         else (case decimal_prefix t of
                 None \<Rightarrow> None
               | Some (q, r) \<Rightarrow> if r = [] then Some q else None))"

text \<open>
  A string converts by its text; an array converts by the text of its elements joined,
  which is a number only for no element or one; an object is \<open>NaN\<close>.
\<close>

fun ref_to_number_text :: "jsval \<Rightarrow> rat option" where
  "ref_to_number_text (JStr s) = ref_string_to_number s"
| "ref_to_number_text (JArr []) = Some 0"
| "ref_to_number_text (JArr [JNum q]) = Some q"
| "ref_to_number_text (JArr [JNull]) = Some 0"
| "ref_to_number_text (JArr [JUndefined]) = Some 0"
| "ref_to_number_text (JArr [JStr s]) = ref_string_to_number s"
| "ref_to_number_text (JArr [JArr ys]) = ref_to_number_text (JArr ys)"
| "ref_to_number_text _ = None"

text \<open>A date-only ISO string \<open>YYYY-MM-DD\<close> with a month from 01 to 12 and a day from 01 to 28.\<close>

definition ref_iso_date :: "jsstring \<Rightarrow> jsstring option" where
  "ref_iso_date s =
     (let y = take 4 s; m = take 2 (drop 5 s); d = take 2 (drop 8 s)
      in if length s = 10 \<and> s ! 4 = 0x2D \<and> s ! 7 = 0x2D
            \<and> list_all is_digit y \<and> list_all is_digit m \<and> list_all is_digit d
            \<and> 1 \<le> digits_value m \<and> digits_value m \<le> 12
            \<and> 1 \<le> digits_value d \<and> digits_value d \<le> 28
         then Some s else None)"

definition ref_error_message :: "js_error \<Rightarrow> jsstring" where
  "ref_error_message e =
     (case e of
        TypeError \<Rightarrow> js_lit ''TypeError''
      | SyntaxError \<Rightarrow> js_lit ''SyntaxError''
      | FileError m \<Rightarrow> m
      | RequestError m \<Rightarrow> m)"

definition ref_host :: js_host where
  "ref_host =
     \<lparr>toLowerCase = ascii_toLowerCase,
      parseFloat_text = ref_parseFloat,
      iso_date = ref_iso_date,
      JSON_parse = ref_JSON_parse,
      to_number_text = ref_to_number_text,
      error_message = ref_error_message\<rparr>"


section \<open>Scenario data\<close>

text \<open>
  The scenario of the specification: a candidate receipt of 50.00 on 2024-03-01 at
  \<open>Starbucks KLCC\<close>, against four rows of the same amount: another merchant on the same
  date, the same merchant in another case and with a trailing blank, that row again but
  already linked as a duplicate, and another merchant on another date.
\<close>

definition scenario_candidate :: receipt_data where
  "scenario_candidate =
     \<lparr>amount = AmtNum 50, date = Some (js_lit ''2024-03-01''),
      merchant = Some (js_lit ''Starbucks KLCC''), items = None\<rparr>"

definition scenario_row :: "string \<Rightarrow> string \<Rightarrow> string \<Rightarrow> jsstring option \<Rightarrow> db_row" where
  "scenario_row i d m dup =
     \<lparr>row_id = js_lit i, user_id = js_lit ''u1'',
      ocr_data = Some \<lparr>amount = AmtNum 50, date = Some (js_lit d),
                        merchant = Some (js_lit m), items = None\<rparr>,
      duplicate_of = dup,
      uploaded_at = js_lit ''2024-03-02'', row_status = js_lit ''processed'',
      file_path = None\<rparr>"

definition tesco_row :: db_row where
  "tesco_row = scenario_row ''r1'' ''2024-03-01'' ''Tesco'' None"

definition starbucks_row :: db_row where
  "starbucks_row = scenario_row ''r2'' ''2024-03-01'' ''STARBUCKS KLCC '' None"

definition linked_row :: db_row where
  "linked_row = scenario_row ''r3'' ''2024-03-01'' ''STARBUCKS KLCC '' (Some (js_lit ''r2''))"

definition kfc_row :: db_row where
  "kfc_row = scenario_row ''r4'' ''2024-03-05'' ''KFC'' None"

definition scenario_rows :: "db_row list" where
  "scenario_rows = [tesco_row, starbucks_row, linked_row, kfc_row]"

definition scenario_db :: "db_query \<Rightarrow> js_error + db_row list" where
  "scenario_db q = Inr scenario_rows"

text \<open>A row without OCR data.\<close>

definition blank_row :: db_row where
  "blank_row =
     \<lparr>row_id = js_lit ''r5'', user_id = js_lit ''u1'', ocr_data = None, duplicate_of = None,
      uploaded_at = js_lit ''2024-03-02'', row_status = js_lit ''processed'',
      file_path = None\<rparr>"

text \<open>
  A candidate list for the analyzer, an image file that can be read, and a provider that
  answers with a chat completion whose message content is the given text.
\<close>

definition scenario_match :: match_result where
  "scenario_match =
     \<lparr>match_id = js_lit ''r2'', match_userId = js_lit ''u1'', confidence = 100,
      reasons = [js_lit ''Same amount'', js_lit ''Same date'', js_lit ''Same merchant''],
      merchantSimilarity = 1,
      ocrData = \<lparr>amount = AmtNum 50, date = Some (js_lit ''2024-03-01''),
                 merchant = Some (js_lit ''STARBUCKS KLCC ''), items = None\<rparr>,
      uploadedAt = js_lit ''2024-03-02'', status = js_lit ''processed'', filePath = None\<rparr>"

definition read_image :: "jsstring \<Rightarrow> js_error + 8 word list" where
  "read_image path = Inr [0xFF, 0xD8, 0xFF]"

definition chat_response :: "jsstring \<Rightarrow> jsval" where
  "chat_response body =
     JObj [(js_lit ''choices'',
            JArr [JObj [(js_lit ''message'', JObj [(js_lit ''content'', JStr body)])]])]"

definition reply_with :: "jsstring \<Rightarrow> analysis_request \<Rightarrow> js_error + jsval" where
  "reply_with body request = Inr (chat_response body)"

text \<open>A provider that does not answer in time.\<close>

definition provider_timeout :: "analysis_request \<Rightarrow> js_error + jsval" where
  "provider_timeout request = Inl (RequestError (js_lit ''timeout of 30000ms exceeded''))"

section \<open>The dynamic program and the Levenshtein table\<close>

lemma lev_table_0_right [simp]: "lev_table a b i 0 = i"
  by (cases i) simp_all

lemma lev_table_sym: "lev_table a b i j = lev_table b a j i"
proof (induction a b i j rule: lev_table.induct)
  case (3 a b i j)
  then show ?case by (simp add: min.commute min.left_commute eq_commute)
qed simp_all

lemma levenshtein_sym: "levenshtein a b = levenshtein b a"
  unfolding levenshtein_def by (rule lev_table_sym)

lemma lev_table_step_down: "lev_table a b (Suc i) j \<le> lev_table a b i j + 1"
  by (cases j) simp_all

lemma lev_table_back_right: "lev_table a b i j \<le> lev_table a b i (Suc j) + 1"
proof (induction i arbitrary: j)
  case 0
  then show ?case by simp
next
  case (Suc i)
  have d: "lev_table a b (Suc i) j \<le> lev_table a b i j + 1"
    by (rule lev_table_step_down)
  from Suc [of j] d show ?case
    by (simp add: min_def)
qed

lemma lev_table_back_down: "lev_table a b i j \<le> lev_table a b (Suc i) j + 1"
  using lev_table_back_right [of b a j i] by (simp add: lev_table_sym [of a b])

text \<open>On equal elements the diagonal is the minimum: the recurrence in the form of the code.\<close>

lemma lev_table_rec:
  "lev_table a b (Suc i) (Suc j) =
     (if a ! i \<noteq> b ! j
      then min (min (lev_table a b i j) (lev_table a b (Suc i) j)) (lev_table a b i (Suc j)) + 1
      else lev_table a b i j)"
  using lev_table_back_right [of a b i j] lev_table_back_down [of a b i j]
  by (simp add: min_def)

lemma lev_table_le_max: "lev_table a b i j \<le> max i j"
proof (induction a b i j rule: lev_table.induct)
  case (3 a b i j)
  have "lev_table a b (Suc i) (Suc j) \<le> lev_table a b i j + 1"
    by (simp add: min_def)
  with 3 show ?case by simp
qed simp_all

lemma lev_table_same: "lev_table a a n n = 0"
proof (induction n)
  case (Suc n)
  then show ?case by (simp add: lev_table_rec del: lev_table.simps(3))
qed simp

lemma levenshtein_same: "levenshtein a a = 0"
  unfolding levenshtein_def by (rule lev_table_same)

text \<open>Left of the last column the table of the code is the Levenshtein table.\<close>

lemma code_table_inner: "j < length l \<Longrightarrow> code_table s l i j = lev_table s l i j"
proof (induction s l i j rule: code_table.induct)
  case (3 s l i j)
  then show ?case by (simp add: lev_table_rec del: lev_table.simps(3))
qed simp_all

text \<open>
  The last column starts from \<open>costs[longer.length] = 0\<close>.  While no element of the
  shorter string equals the last element of the longer one, the column holds the minimum
  of the distance and the row number; from the first such element on, it holds the
  distance.
\<close>

lemma code_table_last_nomatch:
  assumes "length l = Suc L" "\<forall>k<i. s ! k \<noteq> l ! L"
  shows "code_table s l i (Suc L) = min (lev_table s l i (Suc L)) i"
  using assms(2)
proof (induction i)
  case 0
  then show ?case using assms(1) by simp
next
  case (Suc i)
  then have ih: "code_table s l i (Suc L) = min (lev_table s l i (Suc L)) i"
    and ne: "s ! i \<noteq> l ! L" by simp_all
  have inner: "code_table s l i L = lev_table s l i L"
    "code_table s l (Suc i) L = lev_table s l (Suc i) L"
    using assms(1) by (simp_all add: code_table_inner)
  show ?case
    using ne by (simp add: ih inner lev_table_rec min_def del: lev_table.simps(3))
qed

lemma code_table_last_match:
  assumes "length l = Suc L" "\<exists>k<i. s ! k = l ! L"
  shows "code_table s l i (Suc L) = lev_table s l i (Suc L)"
  using assms(2)
proof (induction i)
  case 0
  then show ?case by simp
next
  case (Suc i)
  have inner: "code_table s l i L = lev_table s l i L"
    "code_table s l (Suc i) L = lev_table s l (Suc i) L"
    using assms(1) by (simp_all add: code_table_inner)
  show ?case
  proof (cases "s ! i = l ! L")
    case True
    then show ?thesis by (simp add: inner lev_table_rec del: lev_table.simps(3))
  next
    case False
    with Suc.prems have "\<exists>k<i. s ! k = l ! L"
      using less_Suc_eq by auto
    with Suc.IH have "code_table s l i (Suc L) = lev_table s l i (Suc L)" by simp
    with False show ?thesis by (simp add: inner lev_table_rec del: lev_table.simps(3))
  qed
qed

lemma code_table_last_le:
  assumes "length l = Suc L"
  shows "code_table s l i (Suc L) \<le> lev_table s l i (Suc L)"
proof (cases "\<exists>k<i. s ! k = l ! L")
  case True
  then show ?thesis using assms by (simp add: code_table_last_match)
next
  case False
  then show ?thesis using assms by (simp add: code_table_last_nomatch)
qed

lemma code_table_square:
  assumes "length l = Suc L"
  shows "code_table s l (Suc L) (Suc L) = lev_table s l (Suc L) (Suc L)"
proof (cases "\<exists>k<Suc L. s ! k = l ! L")
  case True
  then show ?thesis using assms by (simp add: code_table_last_match del: code_table.simps lev_table.simps)
next
  case False
  then have "code_table s l (Suc L) (Suc L) = min (lev_table s l (Suc L) (Suc L)) (Suc L)"
    using assms by (intro code_table_last_nomatch) simp_all
  moreover have "lev_table s l (Suc L) (Suc L) \<le> Suc L"
    using lev_table_le_max [of s l "Suc L" "Suc L"] by simp
  ultimately show ?thesis by simp
qed

subsection \<open>The loops fill the table\<close>

lemma inner_row0: "foldl (inner_step s l 0) ([], lv) [0..<n] = ([0..<n], lv)"
  by (induction n) (simp_all add: inner_step_def arr_set_def)

lemma outer_row0:
  "outer_step s l [] 0 = map (code_table s l 0) [0..<Suc (length l)]"
proof -
  have "inner_loop s l 0 [] = ([0..<Suc (length l)], 0)"
    unfolding inner_loop_def by (rule inner_row0)
  then have "outer_step s l [] 0 = [0..<Suc (length l)][length l := 0]"
    by (simp add: outer_step_def arr_set_def)
  also have "\<dots> = map (code_table s l 0) [0..<Suc (length l)]"
    by (rule nth_equalityI) (auto simp: nth_list_update nth_append less_Suc_eq simp del: upt_Suc)
  finally show ?thesis .
qed

lemma length_row_mix [simp]: "length (row_mix s l i n) = Suc (length l)"
  by (simp add: row_mix_def)

lemma nth_row_mix:
  "k \<le> length l \<Longrightarrow>
   row_mix s l i n ! k = (if k < n then code_table s l (Suc i) k else code_table s l i k)"
  unfolding row_mix_def by (simp del: upt_Suc)

lemma inner_row:
  "n \<le> length l \<Longrightarrow>
   foldl (inner_step s l (Suc i)) (row_mix s l i 0, Suc i) [0..<Suc n]
     = (row_mix s l i n, code_table s l (Suc i) n)"
proof (induction n)
  case 0
  then show ?case by (simp add: inner_step_def)
next
  case (Suc n)
  then have ih: "foldl (inner_step s l (Suc i)) (row_mix s l i 0, Suc i) [0..<Suc n]
     = (row_mix s l i n, code_table s l (Suc i) n)" and n: "Suc n \<le> length l"
    by simp_all
  have upd: "(row_mix s l i n)[n := code_table s l (Suc i) n] = row_mix s l i (Suc n)"
    using n by (intro nth_equalityI) (auto simp: nth_list_update nth_row_mix less_Suc_eq)
  have "foldl (inner_step s l (Suc i)) (row_mix s l i 0, Suc i) [0..<Suc (Suc n)]
      = inner_step s l (Suc i) (row_mix s l i n, code_table s l (Suc i) n) (Suc n)"
    using ih by simp
  also have "\<dots> = (row_mix s l i (Suc n), code_table s l (Suc i) (Suc n))"
    using n by (simp add: inner_step_def arr_set_def nth_row_mix upd Let_def)
  finally show ?case .
qed

lemma outer_row:
  "outer_step s l (map (code_table s l i) [0..<Suc (length l)]) (Suc i)
     = map (code_table s l (Suc i)) [0..<Suc (length l)]"
proof -
  have start: "map (code_table s l i) [0..<Suc (length l)] = row_mix s l i 0"
    by (simp add: row_mix_def)
  have "inner_loop s l (Suc i) (row_mix s l i 0)
      = (row_mix s l i (length l), code_table s l (Suc i) (length l))"
    unfolding inner_loop_def by (rule inner_row) simp
  then have "outer_step s l (row_mix s l i 0) (Suc i)
      = (row_mix s l i (length l))[length l := code_table s l (Suc i) (length l)]"
    by (simp add: outer_step_def arr_set_def)
  also have "\<dots> = map (code_table s l (Suc i)) [0..<Suc (length l)]"
    by (rule nth_equalityI)
       (auto simp: nth_list_update nth_row_mix nth_append less_Suc_eq simp del: upt_Suc)
  finally show ?thesis by (simp only: start)
qed

lemma outer_rows:
  "foldl (outer_step s l) [] [0..<Suc m] = map (code_table s l m) [0..<Suc (length l)]"
proof (induction m)
  case 0
  have "foldl (outer_step s l) [] [0..<Suc 0] = outer_step s l [] 0" by simp
  then show ?case by (simp only: outer_row0)
next
  case (Suc m)
  have "foldl (outer_step s l) [] [0..<Suc (Suc m)]
      = outer_step s l (foldl (outer_step s l) [] [0..<Suc m]) (Suc m)"
    by simp
  then show ?case by (simp only: Suc outer_row)
qed

text \<open>
  After the loops \<open>costs\<close> has \<open>longer.length + 1\<close> elements, the last row of the table;
  so had it after every row, and the reads of \<open>costs[j - 1]\<close> and \<open>costs[j]\<close> with
  \<open>1 \<le> j \<le> longer.length\<close> were inside it.
\<close>

lemma dp_costs_table:
  "dp_costs s l = map (code_table s l (length s)) [0..<Suc (length l)]"
  unfolding dp_costs_def by (rule outer_rows)

lemma dp_costs_last: "dp_costs s l ! length l = code_table s l (length s) (length l)"
  by (simp add: dp_costs_table nth_append del: upt_Suc)

text \<open>The cost that the loops return, against the distance.\<close>

lemma dp_costs_last_Suc:
  "length l = Suc L \<Longrightarrow> dp_costs s l ! length l = code_table s l (length s) (Suc L)"
  using dp_costs_last [of s l] by (simp only:)

lemma levenshtein_Suc:
  "length l = Suc L \<Longrightarrow> levenshtein s l = lev_table s l (length s) (Suc L)"
  by (simp only: levenshtein_def)

lemma dp_costs_le_levenshtein:
  assumes "l \<noteq> []"
  shows "dp_costs s l ! length l \<le> levenshtein s l"
proof -
  from assms obtain L where L: "length l = Suc L" by (cases l) auto
  show ?thesis
    unfolding dp_costs_last_Suc [OF L] levenshtein_Suc [OF L]
    by (rule code_table_last_le [OF L])
qed

lemma dp_costs_equal_length:
  assumes "l \<noteq> []" "length s = length l"
  shows "dp_costs s l ! length l = levenshtein s l"
proof -
  from assms obtain L where L: "length l = Suc L" by (cases l) auto
  have s: "length s = Suc L" using assms(2) L by simp
  show ?thesis
    unfolding dp_costs_last_Suc [OF L] levenshtein_Suc [OF L] s
    by (rule code_table_square [OF L])
qed

lemma dp_costs_last_occurs:
  assumes "l \<noteq> []" "last l \<in> set s"
  shows "dp_costs s l ! length l = levenshtein s l"
proof -
  from assms obtain L where L: "length l = Suc L" by (cases l) auto
  from assms(2) obtain k where "k < length s" "s ! k = last l"
    by (auto simp: in_set_conv_nth)
  moreover have "last l = l ! L"
    using assms(1) L by (simp add: last_conv_nth)
  ultimately have "\<exists>k<length s. s ! k = l ! L" by auto
  then show ?thesis
    unfolding dp_costs_last_Suc [OF L] levenshtein_Suc [OF L]
    by (rule code_table_last_match [OF L])
qed

text \<open>
  Where the last element of the longer string does not occur in the shorter one, the
  loops return the minimum of the distance and the length of the shorter string.
\<close>

lemma dp_costs_last_absent:
  assumes "l \<noteq> []" "last l \<notin> set s"
  shows "dp_costs s l ! length l = min (levenshtein s l) (length s)"
proof -
  from assms obtain L where L: "length l = Suc L" by (cases l) auto
  have "last l = l ! L"
    using assms(1) L by (simp add: last_conv_nth)
  with assms(2) have "\<forall>k<length s. s ! k \<noteq> l ! L"
    by (auto simp: in_set_conv_nth)
  then show ?thesis
    unfolding dp_costs_last_Suc [OF L] levenshtein_Suc [OF L]
    by (rule code_table_last_nomatch [OF L])
qed

text \<open>
  So the loops return the distance exactly when it does not exceed the length of the
  shorter string or the last element of the longer string occurs in the shorter one.
\<close>

lemma dp_costs_exact:
  assumes "l \<noteq> []" "levenshtein s l \<le> length s"
  shows "dp_costs s l ! length l = levenshtein s l"
proof (cases "last l \<in> set s")
  case True
  with assms(1) show ?thesis by (rule dp_costs_last_occurs)
next
  case False
  with assms(1) have "dp_costs s l ! length l = min (levenshtein s l) (length s)"
    by (rule dp_costs_last_absent)
  with assms(2) show ?thesis by simp
qed

lemma levenshtein_le_max: "levenshtein a b \<le> max (length a) (length b)"
  unfolding levenshtein_def by (rule lev_table_le_max)

section \<open>Properties of stringSimilarity\<close>

lemma stringSimilarity_equal:
  "trim (toLowerCase h (or_empty a)) = trim (toLowerCase h (or_empty b))
   \<Longrightarrow> stringSimilarity h a b = 1"
  by (simp add: stringSimilarity_def)

lemma stringSimilarity_one_empty:
  "trim (toLowerCase h (or_empty a)) \<noteq> trim (toLowerCase h (or_empty b))
   \<Longrightarrow> trim (toLowerCase h (or_empty a)) = [] \<or> trim (toLowerCase h (or_empty b)) = []
   \<Longrightarrow> stringSimilarity h a b = 0"
  by (auto simp add: stringSimilarity_def)

text \<open>With both strings non-empty and different, the result is computed from \<open>costs\<close>.\<close>

lemma stringSimilarity_dp:
  assumes "s1 = trim (toLowerCase h (or_empty a))" "s2 = trim (toLowerCase h (or_empty b))"
    and "s1 \<noteq> s2" "s1 \<noteq> []" "s2 \<noteq> []"
  shows "stringSimilarity h a b =
     (if length s1 > length s2
      then (of_nat (length s1) - of_nat (dp_costs s2 s1 ! length s1)) / of_nat (length s1)
      else (of_nat (length s2) - of_nat (dp_costs s1 s2 ! length s2)) / of_nat (length s2))"
  using assms(3-5) unfolding assms(1,2)
  by (simp add: stringSimilarity_def Let_def)

lemma stringSimilarity_sym: "stringSimilarity h a b = stringSimilarity h b a"
proof -
  define s1 where "s1 = trim (toLowerCase h (or_empty a))"
  define s2 where "s2 = trim (toLowerCase h (or_empty b))"
  consider (eq) "s1 = s2" | (empty) "s1 \<noteq> s2" "s1 = [] \<or> s2 = []"
    | (dp) "s1 \<noteq> s2" "s1 \<noteq> []" "s2 \<noteq> []"
    by blast
  then show ?thesis
  proof cases
    case eq
    then show ?thesis
      unfolding s1_def s2_def by (simp add: stringSimilarity_equal)
  next
    case empty
    then have "stringSimilarity h a b = 0" "stringSimilarity h b a = 0"
      unfolding s1_def s2_def by (auto intro: stringSimilarity_one_empty)
    then show ?thesis by simp
  next
    case dp
    have ab: "stringSimilarity h a b =
       (if length s1 > length s2
        then (of_nat (length s1) - of_nat (dp_costs s2 s1 ! length s1)) / of_nat (length s1)
        else (of_nat (length s2) - of_nat (dp_costs s1 s2 ! length s2)) / of_nat (length s2))"
      using dp by (intro stringSimilarity_dp) (simp_all add: s1_def s2_def)
    have ba: "stringSimilarity h b a =
       (if length s2 > length s1
        then (of_nat (length s2) - of_nat (dp_costs s1 s2 ! length s2)) / of_nat (length s2)
        else (of_nat (length s1) - of_nat (dp_costs s2 s1 ! length s1)) / of_nat (length s1))"
      using dp by (intro stringSimilarity_dp) (simp_all add: s1_def s2_def)
    show ?thesis
    proof (cases "length s1 = length s2")
      case True
      have "dp_costs s1 s2 ! length s2 = levenshtein s1 s2"
        using dp True by (intro dp_costs_equal_length) simp_all
      moreover have "dp_costs s2 s1 ! length s1 = levenshtein s2 s1"
        using dp True by (intro dp_costs_equal_length) simp_all
      ultimately show ?thesis
        using True by (simp add: ab ba levenshtein_sym [of s2 s1])
    next
      case False
      then show ?thesis by (auto simp add: ab ba)
    qed
  qed
qed

lemma stringSimilarity_range: "0 \<le> stringSimilarity h a b \<and> stringSimilarity h a b \<le> 1"
proof -
  define s1 where "s1 = trim (toLowerCase h (or_empty a))"
  define s2 where "s2 = trim (toLowerCase h (or_empty b))"
  have cell: "0 \<le> (of_nat (length l) - of_nat (dp_costs s l ! length l)) / (of_nat (length l) :: rat)
      \<and> (of_nat (length l) - of_nat (dp_costs s l ! length l)) / (of_nat (length l) :: rat) \<le> 1"
    if "l \<noteq> []" "length s \<le> length l" for s l :: jsstring
  proof -
    have "dp_costs s l ! length l \<le> levenshtein s l"
      using that(1) by (rule dp_costs_le_levenshtein)
    also have "\<dots> \<le> length l"
      using levenshtein_le_max [of s l] that(2) by simp
    finally have c: "dp_costs s l ! length l \<le> length l" .
    have pos: "(0::rat) < of_nat (length l)" using that(1) by simp
    from c have "(of_nat (dp_costs s l ! length l) :: rat) \<le> of_nat (length l)"
      by (simp only: of_nat_le_iff)
    then show ?thesis using pos by (simp add: divide_le_eq_1)
  qed
  consider (eq) "s1 = s2" | (empty) "s1 \<noteq> s2" "s1 = [] \<or> s2 = []"
    | (dp) "s1 \<noteq> s2" "s1 \<noteq> []" "s2 \<noteq> []"
    by blast
  then show ?thesis
  proof cases
    case eq
    then show ?thesis
      unfolding s1_def s2_def by (simp add: stringSimilarity_equal)
  next
    case empty
    then have "stringSimilarity h a b = 0"
      unfolding s1_def s2_def by (auto intro: stringSimilarity_one_empty)
    then show ?thesis by simp
  next
    case dp
    have ab: "stringSimilarity h a b =
       (if length s1 > length s2
        then (of_nat (length s1) - of_nat (dp_costs s2 s1 ! length s1)) / of_nat (length s1)
        else (of_nat (length s2) - of_nat (dp_costs s1 s2 ! length s2)) / of_nat (length s2))"
      using dp by (intro stringSimilarity_dp) (simp_all add: s1_def s2_def)
    show ?thesis
    proof (cases "length s1 > length s2")
      case True
      then show ?thesis
        using cell [of s1 s2] dp by (simp only: ab if_True) simp
    next
      case False
      then show ?thesis
        using cell [of s2 s1] dp by (simp only: ab if_False) simp
    qed
  qed
qed

subsection \<open>Evaluation on concrete input\<close>

lemmas ref_eval =
  ref_host_def ascii_toLowerCase_def js_lit_def or_empty_def trim_def is_js_space_def

lemmas dp_eval =
  stringSimilarity_def Let_def dp_costs_def outer_step_def inner_loop_def inner_step_def
  arr_set_def upt_rec

text \<open>
  Claim C2, as the code has it.  \<open>stringSimilarity\<close> is symmetric, and the similarity of
  a string with itself is 1.  When one of the two inputs is empty after case-folding and
  trimming and the other is not, the similarity is 0; when both are empty it is 1,
  because the test for equality comes before the test for emptiness.
\<close>

theorem stringSimilarity_symmetric:
  "stringSimilarity h a b = stringSimilarity h b a
   \<and> stringSimilarity h a a = 1
   \<and> ((trim (toLowerCase h (or_empty a)) = [] \<or> trim (toLowerCase h (or_empty b)) = [])
        \<and> trim (toLowerCase h (or_empty a)) \<noteq> trim (toLowerCase h (or_empty b))
       \<longrightarrow> stringSimilarity h a b = 0)
   \<and> (trim (toLowerCase h (or_empty a)) = [] \<and> trim (toLowerCase h (or_empty b)) = []
       \<longrightarrow> stringSimilarity h a b = 1)"
proof (intro conjI impI)
  show "stringSimilarity h a b = stringSimilarity h b a"
    by (rule stringSimilarity_sym)
  show "stringSimilarity h a a = 1"
    by (simp add: stringSimilarity_equal)
next
  assume "(trim (toLowerCase h (or_empty a)) = [] \<or> trim (toLowerCase h (or_empty b)) = [])
        \<and> trim (toLowerCase h (or_empty a)) \<noteq> trim (toLowerCase h (or_empty b))"
  then show "stringSimilarity h a b = 0"
    by (intro stringSimilarity_one_empty) simp_all
next
  assume "trim (toLowerCase h (or_empty a)) = [] \<and> trim (toLowerCase h (or_empty b)) = []"
  then show "stringSimilarity h a b = 1"
    by (intro stringSimilarity_equal) simp
qed

theorem stringSimilarity_symmetric_witness:
  "trim (toLowerCase ref_host (or_empty (Some (js_lit '' '')))) = []
   \<and> trim (toLowerCase ref_host (or_empty (Some (js_lit ''KFC'')))) \<noteq> []
   \<and> stringSimilarity ref_host (Some (js_lit '' '')) (Some (js_lit ''KFC'')) = 0
   \<and> stringSimilarity ref_host (Some (js_lit ''KFC'')) (Some (js_lit '' '')) = 0
   \<and> stringSimilarity ref_host (Some (js_lit '' '')) None = 1"
proof -
  have e: "trim (toLowerCase ref_host (or_empty (Some (js_lit '' '')))) = []"
    by (simp add: ref_eval)
  have n: "trim (toLowerCase ref_host (or_empty (Some (js_lit ''KFC'')))) \<noteq> []"
    by (simp add: ref_eval)
  have m: "trim (toLowerCase ref_host (or_empty None)) = []"
    by (simp add: ref_eval)
  show ?thesis
    using stringSimilarity_symmetric [of ref_host "Some (js_lit '' '')" "Some (js_lit ''KFC'')"]
      stringSimilarity_symmetric [of ref_host "Some (js_lit '' '')" None] e n m
    by simp
qed

text \<open>
  Claim C2 as stated fails where both inputs are empty after trimming: the result is 1,
  not 0.
\<close>

theorem stringSimilarity_both_empty_counterexample:
  "trim (toLowerCase ref_host (or_empty (Some (js_lit '' '')))) = []
   \<and> trim (toLowerCase ref_host (or_empty (Some []))) = []
   \<and> stringSimilarity ref_host (Some (js_lit '' '')) (Some []) = 1
   \<and> stringSimilarity ref_host (Some (js_lit '' '')) (Some []) \<noteq> 0"
  by (simp add: ref_eval stringSimilarity_def)

text \<open>
  Claim C6 fails on the code.  The source announces a Levenshtein-based similarity, and
  the routine is the usual row-optimized program but for one guard: the assignment
  \<open>costs[longer.length] = lastValue\<close> also runs in row 0, where it puts 0 in the place
  of \<open>longer.length\<close>.  For \<open>a\<close> against \<open>bc\<close> the array after row 0 is \<open>[0, 1, 0]\<close>,
  the loops leave 1 in \<open>costs[2]\<close> where the Levenshtein distance is 2, and the function
  returns 1/2 where \<open>(max len - distance) / max len\<close> is 0.
\<close>

theorem stringSimilarity_row0_overwrite:
  "outer_step (js_lit ''a'') (js_lit ''bc'') [] 0 = [0, 1, 0]
   \<and> dp_costs (js_lit ''a'') (js_lit ''bc'') ! 2 = 1
   \<and> levenshtein (js_lit ''a'') (js_lit ''bc'') = 2
   \<and> stringSimilarity ref_host (Some (js_lit ''a'')) (Some (js_lit ''bc'')) = 1 / 2
   \<and> spec_similarity ref_host (js_lit ''a'') (js_lit ''bc'') = 0"
proof (intro conjI)
  show "outer_step (js_lit ''a'') (js_lit ''bc'') [] 0 = [0, 1, 0]"
    by (simp add: ref_eval dp_eval)
  show "dp_costs (js_lit ''a'') (js_lit ''bc'') ! 2 = 1"
    by (simp add: ref_eval dp_eval)
  show "levenshtein (js_lit ''a'') (js_lit ''bc'') = 2"
    by (simp add: js_lit_def levenshtein_def)
  show "stringSimilarity ref_host (Some (js_lit ''a'')) (Some (js_lit ''bc'')) = 1 / 2"
    by (simp add: ref_eval dp_eval)
  show "spec_similarity ref_host (js_lit ''a'') (js_lit ''bc'') = 0"
    by (simp add: ref_eval spec_similarity_def levenshtein_def Let_def)
qed

text \<open>
  The strings are compared by UTF-16 code unit.  Two different emoji of one code point
  each are two code units each: the function returns 1/2, the similarity by code point
  is 0.
\<close>

lemma stringSimilarity_by_code_unit:
  "stringSimilarity ref_host (Some [0xD83D, 0xDE00]) (Some [0xD83D, 0xDE01]) = 1 / 2
   \<and> spec_similarity ref_host [0xD83D, 0xDE00] [0xD83D, 0xDE01] = 0"
proof (intro conjI)
  show "stringSimilarity ref_host (Some [0xD83D, 0xDE00]) (Some [0xD83D, 0xDE01]) = 1 / 2"
    by (simp add: ref_eval dp_eval)
  show "spec_similarity ref_host [0xD83D, 0xDE00] [0xD83D, 0xDE01] = 0"
    by (simp add: ref_eval spec_similarity_def levenshtein_def Let_def)
qed

text \<open>
  A short merchant name against a long one that ends in a code unit the short one lacks:
  the loops return the length of the short name, and the similarity passes 0.7.
\<close>

lemma stringSimilarity_short_against_long:
  "stringSimilarity ref_host (Some (js_lit ''ab'')) (Some (js_lit ''xxxxxxxxxx'')) = 4 / 5"
  by (simp add: ref_eval dp_eval)

section \<open>Properties of the candidate matcher\<close>

lemma foldl_push_row:
  "foldl (push_row h n) acc rows = acc @ List.map_filter (score_row h n) rows"
  by (induction rows arbitrary: acc) (simp_all add: push_row_def split: option.split)

lemma scan_rows_map_filter: "scan_rows h n rows = List.map_filter (score_row h n) rows"
  by (simp add: scan_rows_def foldl_push_row)

lemma set_map_filter_iff:
  "m \<in> set (List.map_filter f xs) \<longleftrightarrow> (\<exists>x \<in> set xs. f x = Some m)"
  by (induction xs) (auto split: option.splits)

lemma set_scan_rows:
  "m \<in> set (scan_rows h n rows) \<longleftrightarrow> (\<exists>e \<in> set rows. score_row h n e = Some m)"
  by (simp add: scan_rows_map_filter set_map_filter_iff)

lemma findPotentialDuplicates_returns:
  "db (duplicate_query h n u) = Inr rows
   \<Longrightarrow> findPotentialDuplicates h db n u = Inr (sort_by_confidence (scan_rows h n rows))"
  by (simp add: findPotentialDuplicates_def)

lemma set_sort_by_confidence [simp]: "set (sort_by_confidence xs) = set xs"
  by (simp add: sort_by_confidence_def)

lemma fst_tally:
  "fst (tally h n e) =
     (if amountMatch h n e then 40 else 0) + (if dateMatch h n e then 35 else 0)
       + (if merchant_similarity h n e > 7 / 10 then 25 else 0)"
  by (simp add: tally_def add_amount_def add_date_def add_merchant_def)

lemma score_row_Some:
  "score_row h n e = Some m \<longleftrightarrow>
     \<not> truthy_text (duplicate_of e) \<and> 60 \<le> fst (tally h n e)
     \<and> m = \<lparr>match_id = row_id e, match_userId = user_id e, confidence = fst (tally h n e),
             reasons = snd (tally h n e),
             merchantSimilarity = merchant_similarity h n e, ocrData = existingOcr e,
             uploadedAt = uploaded_at e, status = row_status e, filePath = file_path e\<rparr>"
  by (auto simp add: score_row_def split: prod.splits)

lemma score_row_fields:
  assumes "score_row h n e = Some m"
  shows "confidence m = fst (tally h n e)" "60 \<le> confidence m" "match_id m = row_id e"
    "merchantSimilarity m = merchant_similarity h n e" "\<not> truthy_text (duplicate_of e)"
  using assms by (auto simp add: score_row_Some)

lemma floor_half: "\<lfloor>1 / 2 :: rat\<rfloor> = 0"
  by (rule floor_unique) simp_all

lemma tally_values: "fst (tally h n e) \<in> {0, 25, 35, 40, 60, 65, 75, 100}"
  by (simp add: fst_tally)

text \<open>
  Claim C1.  For a row that the loop scores (its \<open>duplicate_of\<close> is not truthy), the
  confidence is the sum of 40 if \<open>amountMatch\<close>, 35 if \<open>dateMatch\<close> and 25 if
  \<open>merchantMatch\<close> (the merchant similarity is above 0.7).  A result for the row is in the
  returned list exactly when this sum is at least 60, every returned result was pushed
  for some row with a confidence of at least 60, and with a single signal the sum is at
  most 40 and nothing is pushed.
\<close>

theorem confidence_weighted_sum_threshold:
  assumes "db (duplicate_query h newReceipt userId) = Inr rows"
    and "existing \<in> set rows"
    and "\<not> truthy_text (duplicate_of existing)"
    and "c = (if amountMatch h newReceipt existing then 40 else 0)
           + (if dateMatch h newReceipt existing then 35 else 0)
           + (if merchantMatch h newReceipt existing then 25 else (0::nat))"
  shows "fst (tally h newReceipt existing) = c
    \<and> (\<exists>out. findPotentialDuplicates h db newReceipt userId = Inr out
          \<and> ((\<exists>m \<in> set out. score_row h newReceipt existing = Some m) \<longleftrightarrow> 60 \<le> c)
          \<and> (\<forall>m \<in> set out. \<exists>e \<in> set rows. score_row h newReceipt e = Some m
                \<and> 60 \<le> confidence m))
    \<and> ((amountMatch h newReceipt existing \<and> \<not> dateMatch h newReceipt existing
          \<and> \<not> merchantMatch h newReceipt existing)
        \<or> (\<not> amountMatch h newReceipt existing \<and> dateMatch h newReceipt existing
          \<and> \<not> merchantMatch h newReceipt existing)
        \<or> (\<not> amountMatch h newReceipt existing \<and> \<not> dateMatch h newReceipt existing
          \<and> merchantMatch h newReceipt existing)
        \<longrightarrow> c \<le> 40 \<and> score_row h newReceipt existing = None)"
proof -
  have c: "fst (tally h newReceipt existing) = c"
    by (simp add: fst_tally assms(4) merchantMatch_def)
  have out: "findPotentialDuplicates h db newReceipt userId
      = Inr (sort_by_confidence (scan_rows h newReceipt rows))"
    using assms(1) by (rule findPotentialDuplicates_returns)
  have emitted: "(\<exists>m \<in> set (sort_by_confidence (scan_rows h newReceipt rows)).
        score_row h newReceipt existing = Some m) \<longleftrightarrow> 60 \<le> c"
    using assms(2,3) c by (auto simp add: set_scan_rows score_row_Some)
  have origin: "\<forall>m \<in> set (sort_by_confidence (scan_rows h newReceipt rows)).
      \<exists>e \<in> set rows. score_row h newReceipt e = Some m \<and> 60 \<le> confidence m"
    by (auto simp add: set_scan_rows dest: score_row_fields(2))
  have single: "c \<le> 40 \<and> score_row h newReceipt existing = None"
    if "(amountMatch h newReceipt existing \<and> \<not> dateMatch h newReceipt existing
          \<and> \<not> merchantMatch h newReceipt existing)
        \<or> (\<not> amountMatch h newReceipt existing \<and> dateMatch h newReceipt existing
          \<and> \<not> merchantMatch h newReceipt existing)
        \<or> (\<not> amountMatch h newReceipt existing \<and> \<not> dateMatch h newReceipt existing
          \<and> merchantMatch h newReceipt existing)"
  proof -
    from that have "c \<le> 40" by (auto simp add: assms(4))
    moreover from this c have "score_row h newReceipt existing = None"
      by (cases "score_row h newReceipt existing") (auto simp add: score_row_Some)
    ultimately show ?thesis by simp
  qed
  from c out emitted origin single show ?thesis by blast
qed

text \<open>
  Claim C7.  For a row whose \<open>duplicate_of\<close> is set (a non-empty identifier), the loop
  pushes nothing, whatever its score would be: every returned result was pushed for
  another row, one that is not linked; and where the row identifiers are distinct, no
  returned result carries the identifier of the linked row.
\<close>

theorem marked_duplicates_not_returned:
  assumes "db (duplicate_query h newReceipt userId) = Inr rows"
    and "existing \<in> set rows"
    and "duplicate_of existing = Some d" and "d \<noteq> []"
  shows "score_row h newReceipt existing = None
    \<and> (\<exists>out. findPotentialDuplicates h db newReceipt userId = Inr out
          \<and> (\<forall>m \<in> set out. \<exists>e \<in> set rows.
                \<not> truthy_text (duplicate_of e) \<and> e \<noteq> existing
                \<and> score_row h newReceipt e = Some m)
          \<and> (distinct (map row_id rows) \<longrightarrow> (\<forall>m \<in> set out. match_id m \<noteq> row_id existing)))"
proof -
  have skip: "truthy_text (duplicate_of existing)"
    using assms(3,4) by (simp add: truthy_text_def)
  then have none: "score_row h newReceipt existing = None"
    by (simp add: score_row_def)
  have out: "findPotentialDuplicates h db newReceipt userId
      = Inr (sort_by_confidence (scan_rows h newReceipt rows))"
    using assms(1) by (rule findPotentialDuplicates_returns)
  have origin: "\<exists>e \<in> set rows. \<not> truthy_text (duplicate_of e) \<and> e \<noteq> existing
      \<and> score_row h newReceipt e = Some m"
    if "m \<in> set (sort_by_confidence (scan_rows h newReceipt rows))" for m
  proof -
    from that obtain e where e: "e \<in> set rows" "score_row h newReceipt e = Some m"
      by (auto simp add: set_scan_rows)
    from e(2) have "\<not> truthy_text (duplicate_of e)" by (rule score_row_fields(5))
    moreover from e(2) none have "e \<noteq> existing" by auto
    ultimately show ?thesis using e by blast
  qed
  have ids: "match_id m \<noteq> row_id existing"
    if "distinct (map row_id rows)"
      and "m \<in> set (sort_by_confidence (scan_rows h newReceipt rows))" for m
  proof
    assume eq: "match_id m = row_id existing"
    from origin [OF that(2)] obtain e where e: "e \<in> set rows" "e \<noteq> existing"
      "score_row h newReceipt e = Some m"
      by blast
    then have "match_id m = row_id e" by (simp add: score_row_fields(3))
    with eq have "row_id e = row_id existing" by simp
    with that(1) assms(2) e(1) have "e = existing"
      by (simp add: distinct_map inj_on_def)
    with e(2) show False by simp
  qed
  from none out origin ids show ?thesis by blast
qed

text \<open>
  Claim C8.  The returned list is in descending order of confidence: of two adjacent
  elements the earlier has the greater or equal confidence.  Results of equal confidence
  keep the order in which the loop pushed them, which is the order of the rows.
\<close>

theorem results_sorted_descending_stable:
  assumes "db (duplicate_query h newReceipt userId) = Inr rows"
  shows "\<exists>out. findPotentialDuplicates h db newReceipt userId = Inr out
    \<and> (\<forall>i. Suc i < length out \<longrightarrow> confidence (out ! Suc i) \<le> confidence (out ! i))
    \<and> (\<forall>c. filter (\<lambda>m. confidence m = c) out
             = filter (\<lambda>m. confidence m = c) (List.map_filter (score_row h newReceipt) rows))"
proof -
  define pushed where "pushed = scan_rows h newReceipt rows"
  define out where "out = sort_by_confidence pushed"
  have ret: "findPotentialDuplicates h db newReceipt userId = Inr out"
    using assms by (simp add: findPotentialDuplicates_returns out_def pushed_def)
  have "sorted (map (\<lambda>m. - int (confidence m)) out)"
    by (simp add: out_def sort_by_confidence_def)
  then have adj: "\<forall>i. Suc i < length out \<longrightarrow> confidence (out ! Suc i) \<le> confidence (out ! i)"
    by (auto simp add: sorted_iff_nth_Suc)
  have stable: "filter (\<lambda>m. confidence m = c) out = filter (\<lambda>m. confidence m = c) pushed" for c
  proof -
    have "filter (\<lambda>m. - int (confidence m) = - int c) (sort_key (\<lambda>m. - int (confidence m)) pushed)
        = filter (\<lambda>m. - int (confidence m) = - int c) pushed"
      by (rule sort_key_stable)
    then show ?thesis by (simp add: out_def sort_by_confidence_def)
  qed
  from ret adj stable show ?thesis
    by (auto simp add: pushed_def scan_rows_map_filter)
qed

text \<open>
  Claim C9.  Every returned result has a confidence of 60, 65, 75 or 100, and its
  \<open>merchantSimilarity\<close> lies between 0 and 1.
\<close>

theorem emitted_confidence_and_similarity_range:
  assumes "findPotentialDuplicates h db newReceipt userId = Inr out"
  shows "\<forall>m \<in> set out. confidence m \<in> {60, 65, 75, 100}
           \<and> 0 \<le> merchantSimilarity m \<and> merchantSimilarity m \<le> 1"
proof
  fix m assume m: "m \<in> set out"
  from assms obtain rows where "out = sort_by_confidence (scan_rows h newReceipt rows)"
    by (auto simp add: findPotentialDuplicates_def split: sum.splits)
  with m obtain e where e: "score_row h newReceipt e = Some m"
    by (auto simp add: set_scan_rows)
  then have c: "confidence m = fst (tally h newReceipt e)" "60 \<le> fst (tally h newReceipt e)"
    and s: "merchantSimilarity m = merchant_similarity h newReceipt e"
    using score_row_fields [of h newReceipt e m] by simp_all
  from c tally_values [of h newReceipt e] have "confidence m \<in> {60, 65, 75, 100}"
    by auto
  moreover have "0 \<le> merchantSimilarity m \<and> merchantSimilarity m \<le> 1"
    unfolding s merchant_similarity_def Let_def by (rule stringSimilarity_range)
  ultimately show "confidence m \<in> {60, 65, 75, 100}
           \<and> 0 \<le> merchantSimilarity m \<and> merchantSimilarity m \<le> 1"
    by simp
qed

text \<open>
  Claim C10.  \<open>normalizeAmount\<close> maps an absent amount to 0.  A candidate without an
  amount, against a row whose OCR data or amount is absent or whose amount is 0, satisfies
  \<open>amountMatch\<close>: the confidence receives the 40 of the amount and the first reason is
  \<open>Same amount\<close>.
\<close>

theorem missing_amounts_match:
  "normalizeAmount h AmtAbsent = Some 0
   \<and> (amount newReceipt = AmtAbsent
        \<and> (ocr_data existing = None \<or> amount (existingOcr existing) = AmtAbsent
            \<or> amount (existingOcr existing) = AmtNum 0)
       \<longrightarrow> amountMatch h newReceipt existing
         \<and> add_amount (amountMatch h newReceipt existing) (0, []) = (40, [js_lit ''Same amount''])
         \<and> 40 \<le> fst (tally h newReceipt existing)
         \<and> hd (snd (tally h newReceipt existing)) = js_lit ''Same amount'')"
proof -
  have z: "normalizeAmount h AmtAbsent = Some 0" "normalizeAmount h (AmtNum 0) = Some 0"
    by (simp_all add: normalizeAmount_def floor_half)
  have "amountMatch h newReceipt existing
         \<and> add_amount (amountMatch h newReceipt existing) (0, []) = (40, [js_lit ''Same amount''])
         \<and> 40 \<le> fst (tally h newReceipt existing)
         \<and> hd (snd (tally h newReceipt existing)) = js_lit ''Same amount''"
    if n: "amount newReceipt = AmtAbsent"
      and e: "ocr_data existing = None \<or> amount (existingOcr existing) = AmtAbsent
            \<or> amount (existingOcr existing) = AmtNum 0"
  proof -
    from e have "amount (existingOcr existing) = AmtAbsent \<or> amount (existingOcr existing) = AmtNum 0"
      by (auto simp add: existingOcr_def empty_ocr_def)
    then have am: "amountMatch h newReceipt existing"
      using n z by (auto simp add: amountMatch_def)
    then show ?thesis
      by (simp add: tally_def add_amount_def add_date_def add_merchant_def)
  qed
  with z(1) show ?thesis by blast
qed

lemma scenario_db_rows: "scenario_db (duplicate_query ref_host scenario_candidate None) = Inr scenario_rows"
  by (simp add: scenario_db_def)

lemma scenario_members:
  "tesco_row \<in> set scenario_rows" "starbucks_row \<in> set scenario_rows"
  "linked_row \<in> set scenario_rows" "kfc_row \<in> set scenario_rows"
  by (simp_all add: scenario_rows_def)

theorem confidence_weighted_sum_threshold_witness:
  "fst (tally ref_host scenario_candidate tesco_row) = 75
   \<and> score_row ref_host scenario_candidate tesco_row \<noteq> None
   \<and> fst (tally ref_host scenario_candidate kfc_row) = 40
   \<and> score_row ref_host scenario_candidate kfc_row = None"
proof -
  have t1: "\<not> truthy_text (duplicate_of tesco_row)"
    by (simp add: tesco_row_def scenario_row_def truthy_text_def)
  have t2: "(75::nat) = (if amountMatch ref_host scenario_candidate tesco_row then 40 else 0)
           + (if dateMatch ref_host scenario_candidate tesco_row then 35 else 0)
           + (if merchantMatch ref_host scenario_candidate tesco_row then 25 else (0::nat))"
    by code_simp
  have k1: "\<not> truthy_text (duplicate_of kfc_row)"
    by (simp add: kfc_row_def scenario_row_def truthy_text_def)
  have k2: "(40::nat) = (if amountMatch ref_host scenario_candidate kfc_row then 40 else 0)
           + (if dateMatch ref_host scenario_candidate kfc_row then 35 else 0)
           + (if merchantMatch ref_host scenario_candidate kfc_row then 25 else (0::nat))"
    by code_simp
  have k3: "amountMatch ref_host scenario_candidate kfc_row
      \<and> \<not> dateMatch ref_host scenario_candidate kfc_row
      \<and> \<not> merchantMatch ref_host scenario_candidate kfc_row"
    by code_simp
  from confidence_weighted_sum_threshold [where db = scenario_db and h = ref_host
      and newReceipt = scenario_candidate and userId = None and rows = scenario_rows
      and existing = tesco_row and c = 75, OF scenario_db_rows scenario_members(1) t1 t2]
  have a: "fst (tally ref_host scenario_candidate tesco_row) = 75
      \<and> score_row ref_host scenario_candidate tesco_row \<noteq> None"
    by auto
  from confidence_weighted_sum_threshold [where db = scenario_db and h = ref_host
      and newReceipt = scenario_candidate and userId = None and rows = scenario_rows
      and existing = kfc_row and c = 40, OF scenario_db_rows scenario_members(4) k1 k2] k3
  have b: "fst (tally ref_host scenario_candidate kfc_row) = 40
      \<and> score_row ref_host scenario_candidate kfc_row = None"
    by blast
  from a b show ?thesis by simp
qed

theorem marked_duplicates_not_returned_witness:
  "score_row ref_host scenario_candidate linked_row = None
   \<and> (\<exists>out. findPotentialDuplicates ref_host scenario_db scenario_candidate None = Inr out
         \<and> js_lit ''r3'' \<notin> set (map match_id out))"
proof -
  have d: "distinct (map row_id scenario_rows)"
    by (simp add: scenario_rows_def tesco_row_def starbucks_row_def linked_row_def kfc_row_def
        scenario_row_def js_lit_def)
  have l: "duplicate_of linked_row = Some (js_lit ''r2'')" "js_lit ''r2'' \<noteq> []"
    "row_id linked_row = js_lit ''r3''"
    by (simp_all add: linked_row_def scenario_row_def js_lit_def)
  from marked_duplicates_not_returned [where db = scenario_db and h = ref_host
      and newReceipt = scenario_candidate and userId = None and rows = scenario_rows
      and existing = linked_row and d = "js_lit ''r2''",
      OF scenario_db_rows scenario_members(3) l(1) l(2)] d
  obtain out where none: "score_row ref_host scenario_candidate linked_row = None"
    and out: "findPotentialDuplicates ref_host scenario_db scenario_candidate None = Inr out"
    and ids: "\<forall>m \<in> set out. match_id m \<noteq> row_id linked_row"
    by blast
  from ids have "js_lit ''r3'' \<notin> set (map match_id out)"
    unfolding l(3) by auto
  with none out show ?thesis by blast
qed

theorem results_sorted_descending_stable_witness:
  "\<exists>out. findPotentialDuplicates ref_host scenario_db scenario_candidate None = Inr out
    \<and> map (\<lambda>m. (match_id m, confidence m)) out = [(js_lit ''r2'', 100), (js_lit ''r1'', 75)]
    \<and> map match_id (scan_rows ref_host scenario_candidate scenario_rows)
        = [js_lit ''r1'', js_lit ''r2'']
    \<and> confidence (out ! Suc 0) \<le> confidence (out ! 0)"
proof -
  from results_sorted_descending_stable [where db = scenario_db and h = ref_host
      and newReceipt = scenario_candidate and userId = None and rows = scenario_rows,
      OF scenario_db_rows]
  obtain out where out: "findPotentialDuplicates ref_host scenario_db scenario_candidate None = Inr out"
    and adj: "\<forall>i. Suc i < length out \<longrightarrow> confidence (out ! Suc i) \<le> confidence (out ! i)"
    by blast
  have ev: "map_sum id (map (\<lambda>m. (match_id m, confidence m)))
        (findPotentialDuplicates ref_host scenario_db scenario_candidate None)
      = Inr [(js_lit ''r2'', 100), (js_lit ''r1'', 75)]"
    by code_simp
  have pushed: "map match_id (scan_rows ref_host scenario_candidate scenario_rows)
        = [js_lit ''r1'', js_lit ''r2'']"
    by code_simp
  from ev out have m: "map (\<lambda>m. (match_id m, confidence m)) out
      = [(js_lit ''r2'', 100), (js_lit ''r1'', 75)]"
    by simp
  then have "length (map (\<lambda>m. (match_id m, confidence m)) out) = 2"
    by simp
  then have "Suc 0 < length out" by simp
  with adj have "confidence (out ! Suc 0) \<le> confidence (out ! 0)" by blast
  with out m pushed show ?thesis
    by (intro exI [of _ out]) simp
qed

theorem emitted_confidence_and_similarity_range_witness:
  "map confidence (sort_by_confidence (scan_rows ref_host scenario_candidate scenario_rows))
     = [100, 75]
   \<and> list_all (\<lambda>m. confidence m \<in> {60, 65, 75, 100}
                    \<and> 0 \<le> merchantSimilarity m \<and> merchantSimilarity m \<le> 1)
       (sort_by_confidence (scan_rows ref_host scenario_candidate scenario_rows))"
proof -
  have ret: "findPotentialDuplicates ref_host scenario_db scenario_candidate None
      = Inr (sort_by_confidence (scan_rows ref_host scenario_candidate scenario_rows))"
    by (simp add: findPotentialDuplicates_def scenario_db_def)
  have ev: "map confidence (sort_by_confidence (scan_rows ref_host scenario_candidate scenario_rows))
     = [100, 75]"
    by code_simp
  from emitted_confidence_and_similarity_range [OF ret] ev show ?thesis
    by (simp add: list_all_iff)
qed

theorem missing_amounts_match_witness:
  "amount empty_ocr = AmtAbsent \<and> ocr_data blank_row = None
   \<and> amountMatch ref_host empty_ocr blank_row
   \<and> 40 \<le> fst (tally ref_host empty_ocr blank_row)
   \<and> hd (snd (tally ref_host empty_ocr blank_row)) = js_lit ''Same amount''"
proof -
  have a: "amount empty_ocr = AmtAbsent" by (simp add: empty_ocr_def)
  have b: "ocr_data blank_row = None" by (simp add: blank_row_def)
  from missing_amounts_match [of ref_host empty_ocr blank_row] a b show ?thesis by blast
qed

section \<open>Properties of the deep duplicate analyzer\<close>

lemma brace_span_SomeI:
  assumes "body = pre @ t @ rest" "0x7B \<notin> set pre" "0x7D \<notin> set rest"
    and "t \<noteq> []" "hd t = 0x7B" "last t = 0x7D"
  shows "brace_span body = Some t"
proof -
  from assms(4,5) obtain t' where t: "t = 0x7B # t'" by (cases t) auto
  have "dropWhile (\<lambda>c. c \<noteq> 0x7B) body = dropWhile (\<lambda>c. c \<noteq> 0x7B) (t @ rest)"
    unfolding assms(1) using assms(2) by (intro dropWhile_append2) auto
  also have "\<dots> = t @ rest" by (simp add: t)
  finally have open_at: "dropWhile (\<lambda>c. c \<noteq> 0x7B) body = t @ rest" .
  from assms(4,6) obtain t'' where r: "rev t = 0x7D # t''"
    by (cases "rev t") (auto simp add: last_rev [symmetric] hd_rev)
  have "dropWhile (\<lambda>c. c \<noteq> 0x7D) (rev (t @ rest))
      = dropWhile (\<lambda>c. c \<noteq> 0x7D) (rev t)"
    using assms(3) by (simp only: rev_append) (intro dropWhile_append2, auto)
  also have "\<dots> = rev t" by (simp add: r)
  finally have "rev (dropWhile (\<lambda>c. c \<noteq> 0x7D) (rev (t @ rest))) = t"
    by (simp only: rev_rev_ident)
  then have "brace_span body = (if t = [] then None else Some t)"
    by (simp only: brace_span_def Let_def open_at)
  with assms(4) show ?thesis by simp
qed

lemma brace_span_SomeD:
  assumes "brace_span body = Some t"
  shows "\<exists>pre rest. body = pre @ t @ rest \<and> 0x7B \<notin> set pre \<and> 0x7D \<notin> set rest
           \<and> t \<noteq> [] \<and> hd t = 0x7B \<and> last t = 0x7D"
proof -
  define pre where "pre = takeWhile (\<lambda>c. c \<noteq> 0x7B) body"
  define from_open where "from_open = dropWhile (\<lambda>c. c \<noteq> 0x7B) body"
  define rest where "rest = rev (takeWhile (\<lambda>c. c \<noteq> 0x7D) (rev from_open))"
  from assms have t: "t = rev (dropWhile (\<lambda>c. c \<noteq> 0x7D) (rev from_open))" and ne: "t \<noteq> []"
    by (auto simp add: brace_span_def Let_def from_open_def split: if_splits)
  have body: "body = pre @ from_open"
    by (simp add: pre_def from_open_def)
  have "t @ rest = rev (takeWhile (\<lambda>c. c \<noteq> 0x7D) (rev from_open)
      @ dropWhile (\<lambda>c. c \<noteq> 0x7D) (rev from_open))"
    by (simp only: t rest_def rev_append)
  also have "\<dots> = rev (rev from_open)"
    by (simp only: takeWhile_dropWhile_id)
  finally have split: "from_open = t @ rest"
    by simp
  have pre: "0x7B \<notin> set pre"
    unfolding pre_def by (auto dest: set_takeWhileD)
  have rest: "0x7D \<notin> set rest"
    unfolding rest_def by (auto dest: set_takeWhileD)
  from ne split have "from_open \<noteq> []" by auto
  then have "hd from_open = 0x7B"
    unfolding from_open_def using hd_dropWhile [of "\<lambda>c. c \<noteq> 0x7B" body] by auto
  with ne split have hd: "hd t = 0x7B" by (cases t) auto
  from ne have "dropWhile (\<lambda>c. c \<noteq> 0x7D) (rev from_open) \<noteq> []"
    by (simp add: t)
  then have "hd (dropWhile (\<lambda>c. c \<noteq> 0x7D) (rev from_open)) = 0x7D"
    using hd_dropWhile [of "\<lambda>c. c \<noteq> 0x7D" "rev from_open"] by auto
  with ne have last: "last t = 0x7D"
    by (simp add: t last_rev)
  from body split pre rest ne hd last show ?thesis by blast
qed

lemma js_get_verdicts [simp]:
  "js_get not_duplicate_verdict (js_lit ''isDuplicate'') = Inr (JBool False)"
  "js_get not_duplicate_verdict (js_lit ''confidence'') = Inr (JNum 0)"
  "js_get (error_verdict h e) (js_lit ''isDuplicate'') = Inr (JBool False)"
  "js_get (error_verdict h e) (js_lit ''confidence'') = Inr (JNum 0)"
  by (simp_all add: js_get_def not_duplicate_verdict_def error_verdict_def js_lit_def)

lemma aiDuplicateAnalysis_content:
  assumes "rs \<noteq> []"
    and "readFileSync imagePath = Inr imageBuffer"
    and "post \<lparr>request_image = imageBuffer, request_receipts = map summarize rs\<rparr> = Inr data"
    and "response_content data = Inr (JStr body)"
  shows "aiDuplicateAnalysis h readFileSync post imagePath (Some rs) =
     (case brace_span body of
        None \<Rightarrow> Inr not_duplicate_verdict
      | Some t \<Rightarrow>
          (case JSON_parse h t of None \<Rightarrow> Inr (error_verdict h SyntaxError) | Some v \<Rightarrow> Inr v))"
proof -
  have "analysis_try h readFileSync post imagePath rs =
     (case brace_span body of
        None \<Rightarrow> Inr not_duplicate_verdict
      | Some t \<Rightarrow> (case JSON_parse h t of None \<Rightarrow> Inl SyntaxError | Some v \<Rightarrow> Inr v))"
    using assms(2-4) by (simp add: analysis_try_def match_json_def split: option.split)
  then show ?thesis
    using assms(1) by (simp add: aiDuplicateAnalysis_def split: option.split)
qed

text \<open>
  Claim C3, as the code has it.  When the image is read and the provider answers with a
  message whose content is a string, \<open>aiDuplicateAnalysis\<close> takes the text from the first
  \<open>{\<close> of the content to its last \<open>}\<close> and returns the parse of that text, so text before
  the first \<open>{\<close> and behind the last \<open>}\<close> is tolerated.  When that text does not parse,
  or when no \<open>}\<close> follows the first \<open>{\<close>, it returns a verdict that is not a duplicate.
\<close>

theorem analysis_parses_first_open_to_last_close:
  assumes "rs \<noteq> []"
    and "readFileSync imagePath = Inr imageBuffer"
    and "post \<lparr>request_image = imageBuffer, request_receipts = map summarize rs\<rparr> = Inr data"
    and "response_content data = Inr (JStr body)"
  shows "(\<forall>pre t rest.
            body = pre @ t @ rest \<and> 0x7B \<notin> set pre \<and> 0x7D \<notin> set rest
            \<and> t \<noteq> [] \<and> hd t = 0x7B \<and> last t = 0x7D
            \<longrightarrow> aiDuplicateAnalysis h readFileSync post imagePath (Some rs)
                  = Inr (case JSON_parse h t of
                           None \<Rightarrow> error_verdict h SyntaxError
                         | Some v \<Rightarrow> v))
    \<and> ((\<nexists>pre t rest.
            body = pre @ t @ rest \<and> 0x7B \<notin> set pre \<and> 0x7D \<notin> set rest
            \<and> t \<noteq> [] \<and> hd t = 0x7B \<and> last t = 0x7D)
         \<longrightarrow> aiDuplicateAnalysis h readFileSync post imagePath (Some rs)
               = Inr not_duplicate_verdict)
    \<and> js_get not_duplicate_verdict (js_lit ''isDuplicate'') = Inr (JBool False)
    \<and> js_get (error_verdict h SyntaxError) (js_lit ''isDuplicate'') = Inr (JBool False)"
proof (intro conjI allI impI)
  note content = aiDuplicateAnalysis_content [where h = h and readFileSync = readFileSync
      and post = post and imagePath = imagePath and rs = rs and imageBuffer = imageBuffer
      and data = data and body = body, OF assms]
  fix pre t rest
  assume "body = pre @ t @ rest \<and> 0x7B \<notin> set pre \<and> 0x7D \<notin> set rest
            \<and> t \<noteq> [] \<and> hd t = 0x7B \<and> last t = 0x7D"
  then have "brace_span body = Some t"
    by (intro brace_span_SomeI [of body pre t rest]) simp_all
  then show "aiDuplicateAnalysis h readFileSync post imagePath (Some rs)
      = Inr (case JSON_parse h t of None \<Rightarrow> error_verdict h SyntaxError | Some v \<Rightarrow> v)"
    by (simp add: content split: option.split)
next
  note content = aiDuplicateAnalysis_content [where h = h and readFileSync = readFileSync
      and post = post and imagePath = imagePath and rs = rs and imageBuffer = imageBuffer
      and data = data and body = body, OF assms]
  assume none: "\<nexists>pre t rest.
            body = pre @ t @ rest \<and> 0x7B \<notin> set pre \<and> 0x7D \<notin> set rest
            \<and> t \<noteq> [] \<and> hd t = 0x7B \<and> last t = 0x7D"
  have "brace_span body = None"
  proof (cases "brace_span body")
    case (Some t)
    from brace_span_SomeD [OF this] none show ?thesis by blast
  qed simp
  then show "aiDuplicateAnalysis h readFileSync post imagePath (Some rs) = Inr not_duplicate_verdict"
    by (simp add: content)
qed simp_all

lemma analysis_try_Inr:
  assumes "analysis_try h readFileSync post imagePath rs = Inr v"
  shows "v = not_duplicate_verdict
    \<or> (\<exists>imageBuffer data body t.
          readFileSync imagePath = Inr imageBuffer
          \<and> post \<lparr>request_image = imageBuffer, request_receipts = map summarize rs\<rparr> = Inr data
          \<and> response_content data = Inr (JStr body)
          \<and> brace_span body = Some t \<and> JSON_parse h t = Some v)"
  using assms
  by (auto simp add: analysis_try_def match_json_def
      split: sum.splits option.splits jsval.splits)

text \<open>
  Claim C4, as the code has it.  \<open>aiDuplicateAnalysis\<close> never throws.  Unless there are
  candidates, the image is read, the provider answers, the answer has a string as message
  content, the content has a text from its first \<open>{\<close> to its last \<open>}\<close> and that text
  parses, the returned verdict has \<open>isDuplicate\<close> false and \<open>confidence\<close> 0.  In the
  remaining case the parsed value is returned as it is, with the fields it has.
\<close>

theorem analysis_returns_and_fails_safe:
  "\<exists>v. aiDuplicateAnalysis h readFileSync post imagePath existingReceipts = Inr v
     \<and> ((js_get v (js_lit ''isDuplicate'') = Inr (JBool False)
          \<and> js_get v (js_lit ''confidence'') = Inr (JNum 0))
        \<or> (\<exists>rs imageBuffer data body t.
              existingReceipts = Some rs \<and> rs \<noteq> []
              \<and> readFileSync imagePath = Inr imageBuffer
              \<and> post \<lparr>request_image = imageBuffer, request_receipts = map summarize rs\<rparr>
                  = Inr data
              \<and> response_content data = Inr (JStr body)
              \<and> brace_span body = Some t \<and> JSON_parse h t = Some v))"
proof (cases existingReceipts)
  case None
  then show ?thesis by (simp add: aiDuplicateAnalysis_def)
next
  case (Some rs)
  show ?thesis
  proof (cases "rs = []")
    case True
    with Some show ?thesis by (simp add: aiDuplicateAnalysis_def)
  next
    case False
    show ?thesis
    proof (cases "analysis_try h readFileSync post imagePath rs")
      case (Inl e)
      with Some False show ?thesis by (simp add: aiDuplicateAnalysis_def)
    next
      case (Inr v)
      with Some False have r: "aiDuplicateAnalysis h readFileSync post imagePath existingReceipts = Inr v"
        by (simp add: aiDuplicateAnalysis_def)
      from analysis_try_Inr [where h = h and readFileSync = readFileSync and post = post
          and imagePath = imagePath and rs = rs and v = v, OF Inr]
      show ?thesis
      proof
        assume "v = not_duplicate_verdict"
        with r show ?thesis by simp
      next
        assume "\<exists>imageBuffer data body t.
          readFileSync imagePath = Inr imageBuffer
          \<and> post \<lparr>request_image = imageBuffer, request_receipts = map summarize rs\<rparr> = Inr data
          \<and> response_content data = Inr (JStr body)
          \<and> brace_span body = Some t \<and> JSON_parse h t = Some v"
        with r Some False show ?thesis by blast
      qed
    qed
  qed
qed

theorem analysis_returns_and_fails_safe_witness:
  "\<exists>v. aiDuplicateAnalysis ref_host read_image provider_timeout (js_lit ''receipt.jpg'')
          (Some [scenario_match]) = Inr v
     \<and> js_get v (js_lit ''isDuplicate'') = Inr (JBool False)
     \<and> js_get v (js_lit ''confidence'') = Inr (JNum 0)"
  using analysis_returns_and_fails_safe [of ref_host read_image provider_timeout
      "js_lit ''receipt.jpg''" "Some [scenario_match]"]
  by (auto simp add: provider_timeout_def read_image_def)

text \<open>
  Claim C4 as stated fails for a body with a missing field: the object is returned as it
  was parsed, with \<open>isDuplicate\<close> true and no \<open>confidence\<close>.
\<close>

theorem analysis_missing_field_counterexample:
  "aiDuplicateAnalysis ref_host read_image (reply_with (js_lit ''{\"isDuplicate\":true}''))
      (js_lit ''receipt.jpg'') (Some [scenario_match])
     = Inr (JObj [(js_lit ''isDuplicate'', JBool True)])
   \<and> js_get (JObj [(js_lit ''isDuplicate'', JBool True)]) (js_lit ''isDuplicate'')
       = Inr (JBool True)
   \<and> js_get (JObj [(js_lit ''isDuplicate'', JBool True)]) (js_lit ''confidence'')
       = Inr JUndefined"
  by code_simp

text \<open>
  Claim C3 as stated fails where a second brace follows the first well-formed object:
  the text up to the last \<open>}\<close> does not parse, and the verdict of the object is lost.
\<close>

theorem analysis_first_object_counterexample:
  "first_json_object ref_JSON_parse (js_lit ''Sure! {\"isDuplicate\":true,\"confidence\":0.9} {}'')
     = Some (JObj [(js_lit ''isDuplicate'', JBool True), (js_lit ''confidence'', JNum (9 / 10))])
   \<and> aiDuplicateAnalysis ref_host read_image
        (reply_with (js_lit ''Sure! {\"isDuplicate\":true,\"confidence\":0.9} {}''))
        (js_lit ''receipt.jpg'') (Some [scenario_match])
     = Inr (JObj [(js_lit ''isDuplicate'', JBool False), (js_lit ''confidence'', JNum 0),
                  (js_lit ''error'', JStr (js_lit ''SyntaxError''))])"
  by code_simp

theorem analysis_parses_first_open_to_last_close_witness:
  "aiDuplicateAnalysis ref_host read_image
        (reply_with (js_lit ''Sure! {\"isDuplicate\":true,\"confidence\":0.9} ok''))
        (js_lit ''receipt.jpg'') (Some [scenario_match])
     = Inr (JObj [(js_lit ''isDuplicate'', JBool True), (js_lit ''confidence'', JNum (9 / 10))])"
proof -
  have rs: "[scenario_match] \<noteq> []" by simp
  have rd: "read_image (js_lit ''receipt.jpg'') = Inr [0xFF, 0xD8, 0xFF]"
    by (simp add: read_image_def)
  have po: "reply_with (js_lit ''Sure! {\"isDuplicate\":true,\"confidence\":0.9} ok'')
      \<lparr>request_image = [0xFF, 0xD8, 0xFF], request_receipts = map summarize [scenario_match]\<rparr>
     = Inr (chat_response (js_lit ''Sure! {\"isDuplicate\":true,\"confidence\":0.9} ok''))"
    by (simp add: reply_with_def)
  have rc: "response_content (chat_response (js_lit ''Sure! {\"isDuplicate\":true,\"confidence\":0.9} ok''))
     = Inr (JStr (js_lit ''Sure! {\"isDuplicate\":true,\"confidence\":0.9} ok''))"
    by code_simp
  have split: "js_lit ''Sure! {\"isDuplicate\":true,\"confidence\":0.9} ok''
      = js_lit ''Sure! '' @ js_lit ''{\"isDuplicate\":true,\"confidence\":0.9}'' @ js_lit '' ok''
      \<and> 0x7B \<notin> set (js_lit ''Sure! '') \<and> 0x7D \<notin> set (js_lit '' ok'')
      \<and> js_lit ''{\"isDuplicate\":true,\"confidence\":0.9}'' \<noteq> []
      \<and> hd (js_lit ''{\"isDuplicate\":true,\"confidence\":0.9}'') = 0x7B
      \<and> last (js_lit ''{\"isDuplicate\":true,\"confidence\":0.9}'') = 0x7D"
    by (simp add: js_lit_def)
  have parse: "JSON_parse ref_host (js_lit ''{\"isDuplicate\":true,\"confidence\":0.9}'')
      = Some (JObj [(js_lit ''isDuplicate'', JBool True), (js_lit ''confidence'', JNum (9 / 10))])"
    by code_simp
  from analysis_parses_first_open_to_last_close [where h = ref_host and readFileSync = read_image
      and post = "reply_with (js_lit ''Sure! {\"isDuplicate\":true,\"confidence\":0.9} ok'')"
      and imagePath = "js_lit ''receipt.jpg''" and rs = "[scenario_match]"
      and imageBuffer = "[0xFF, 0xD8, 0xFF]"
      and data = "chat_response (js_lit ''Sure! {\"isDuplicate\":true,\"confidence\":0.9} ok'')"
      and body = "js_lit ''Sure! {\"isDuplicate\":true,\"confidence\":0.9} ok''",
      OF rs rd po rc] split
  have "aiDuplicateAnalysis ref_host read_image
        (reply_with (js_lit ''Sure! {\"isDuplicate\":true,\"confidence\":0.9} ok''))
        (js_lit ''receipt.jpg'') (Some [scenario_match])
     = Inr (case JSON_parse ref_host (js_lit ''{\"isDuplicate\":true,\"confidence\":0.9}'') of
              None \<Rightarrow> error_verdict ref_host SyntaxError | Some v \<Rightarrow> v)"
    by blast
  then show ?thesis by (simp only: parse option.case)
qed

section \<open>Properties of the duplicate gate\<close>

lemma status_literals [simp]: "js_lit ''none'' \<noteq> js_lit ''detected''"
  by (simp add: js_lit_def)

lemma duplicateStatus_no_duplicate [simp]: "duplicateStatus no_duplicate = js_lit ''none''"
  by (simp add: no_duplicate_def)

lemma duplicateStatus_record_duplicate [simp]:
  "duplicateStatus (record_duplicate v first_match) = js_lit ''detected''"
  by (simp add: record_duplicate_def Let_def split: sum.split)

lemma verdict_accepted_iff:
  "verdict_accepted h v = Inr True \<longleftrightarrow>
     (\<exists>d c q. js_get v (js_lit ''isDuplicate'') = Inr d \<and> js_truthy d
        \<and> js_get v (js_lit ''confidence'') = Inr c \<and> to_number h c = Some q \<and> 7 / 10 < q)"
  by (auto simp add: verdict_accepted_def js_gt_def split: sum.splits option.splits)

lemma upload_detected_iff:
  "duplicateStatus (upload_duplicate_check h readFileSync post imagePath pd) = js_lit ''detected''
   \<longleftrightarrow> (\<exists>first_match rest v.
          pd = first_match # rest \<and> 80 \<le> confidence first_match
          \<and> aiDuplicateAnalysis h readFileSync post imagePath (Some pd) = Inr v
          \<and> verdict_accepted h v = Inr True)"
  by (auto simp add: upload_duplicate_check_def split: list.splits sum.splits)

lemma upload_status_values:
  "duplicateStatus (upload_duplicate_check h readFileSync post imagePath pd) = js_lit ''detected''
   \<or> duplicateStatus (upload_duplicate_check h readFileSync post imagePath pd) = js_lit ''none''"
  by (auto simp add: upload_duplicate_check_def split: list.splits sum.splits)

text \<open>
  Claim C5.  The upload workflow sets the duplicate status to \<open>detected\<close> exactly when
  the deep analysis ran (the first candidate has a confidence of at least 80) and its
  verdict has a truthy \<open>isDuplicate\<close> and a \<open>confidence\<close> above 0.7; for a verdict with a
  boolean \<open>isDuplicate\<close> and a numeric \<open>confidence\<close>, exactly when \<open>isDuplicate\<close> is true
  and \<open>confidence > 0.7\<close>.  Otherwise the status stays \<open>none\<close>.
\<close>

theorem upload_detects_iff_verdict_confirms:
  "(duplicateStatus (upload_duplicate_check h readFileSync post imagePath pd) = js_lit ''detected''
    \<longleftrightarrow> (\<exists>first_match rest v d c q.
          pd = first_match # rest \<and> 80 \<le> confidence first_match
          \<and> aiDuplicateAnalysis h readFileSync post imagePath (Some pd) = Inr v
          \<and> js_get v (js_lit ''isDuplicate'') = Inr d \<and> js_truthy d
          \<and> js_get v (js_lit ''confidence'') = Inr c \<and> to_number h c = Some q \<and> 7 / 10 < q))
   \<and> (\<forall>first_match rest v b q.
          pd = first_match # rest \<and> 80 \<le> confidence first_match
          \<and> aiDuplicateAnalysis h readFileSync post imagePath (Some pd) = Inr v
          \<and> js_get v (js_lit ''isDuplicate'') = Inr (JBool b)
          \<and> js_get v (js_lit ''confidence'') = Inr (JNum q)
          \<longrightarrow> (duplicateStatus (upload_duplicate_check h readFileSync post imagePath pd)
                   = js_lit ''detected''
                \<longleftrightarrow> b \<and> 7 / 10 < q))
   \<and> (duplicateStatus (upload_duplicate_check h readFileSync post imagePath pd)
         \<noteq> js_lit ''detected''
       \<longrightarrow> duplicateStatus (upload_duplicate_check h readFileSync post imagePath pd)
             = js_lit ''none'')"
proof (intro conjI allI impI)
  show "duplicateStatus (upload_duplicate_check h readFileSync post imagePath pd) = js_lit ''detected''
    \<longleftrightarrow> (\<exists>first_match rest v d c q.
          pd = first_match # rest \<and> 80 \<le> confidence first_match
          \<and> aiDuplicateAnalysis h readFileSync post imagePath (Some pd) = Inr v
          \<and> js_get v (js_lit ''isDuplicate'') = Inr d \<and> js_truthy d
          \<and> js_get v (js_lit ''confidence'') = Inr c \<and> to_number h c = Some q \<and> 7 / 10 < q)"
    unfolding upload_detected_iff verdict_accepted_iff by blast
next
  fix first_match rest v b q
  assume a: "pd = first_match # rest \<and> 80 \<le> confidence first_match
          \<and> aiDuplicateAnalysis h readFileSync post imagePath (Some pd) = Inr v
          \<and> js_get v (js_lit ''isDuplicate'') = Inr (JBool b)
          \<and> js_get v (js_lit ''confidence'') = Inr (JNum q)"
  then have "verdict_accepted h v = Inr True \<longleftrightarrow> b \<and> 7 / 10 < q"
    by (simp add: verdict_accepted_iff js_truthy_def to_number_def)
  with a show "duplicateStatus (upload_duplicate_check h readFileSync post imagePath pd)
                   = js_lit ''detected''
                \<longleftrightarrow> b \<and> 7 / 10 < q"
    unfolding upload_detected_iff by auto
next
  assume "duplicateStatus (upload_duplicate_check h readFileSync post imagePath pd)
         \<noteq> js_lit ''detected''"
  with upload_status_values [of h readFileSync post imagePath pd]
  show "duplicateStatus (upload_duplicate_check h readFileSync post imagePath pd) = js_lit ''none''"
    by blast
qed

theorem upload_detects_iff_verdict_confirms_witness:
  "duplicateStatus (upload_duplicate_check ref_host read_image
       (reply_with (js_lit ''{\"isDuplicate\":true,\"confidence\":0.7}''))
       (js_lit ''receipt.jpg'') [scenario_match]) = js_lit ''none''
   \<and> duplicateStatus (upload_duplicate_check ref_host read_image
       (reply_with (js_lit ''{\"isDuplicate\":true,\"confidence\":0.71}''))
       (js_lit ''receipt.jpg'') [scenario_match]) = js_lit ''detected''"
proof -
  have gate: "80 \<le> confidence scenario_match"
    by (simp add: scenario_match_def)
  have v1: "aiDuplicateAnalysis ref_host read_image
       (reply_with (js_lit ''{\"isDuplicate\":true,\"confidence\":0.7}''))
       (js_lit ''receipt.jpg'') (Some [scenario_match])
      = Inr (JObj [(js_lit ''isDuplicate'', JBool True), (js_lit ''confidence'', JNum (7 / 10))])"
    by code_simp
  have v2: "aiDuplicateAnalysis ref_host read_image
       (reply_with (js_lit ''{\"isDuplicate\":true,\"confidence\":0.71}''))
       (js_lit ''receipt.jpg'') (Some [scenario_match])
      = Inr (JObj [(js_lit ''isDuplicate'', JBool True), (js_lit ''confidence'', JNum (71 / 100))])"
    by code_simp
  have g1: "js_get (JObj [(js_lit ''isDuplicate'', JBool True), (js_lit ''confidence'', JNum (7 / 10))])
       (js_lit ''isDuplicate'') = Inr (JBool True)"
    "js_get (JObj [(js_lit ''isDuplicate'', JBool True), (js_lit ''confidence'', JNum (7 / 10))])
       (js_lit ''confidence'') = Inr (JNum (7 / 10))"
    by (simp_all add: js_get_def js_lit_def)
  have g2: "js_get (JObj [(js_lit ''isDuplicate'', JBool True), (js_lit ''confidence'', JNum (71 / 100))])
       (js_lit ''isDuplicate'') = Inr (JBool True)"
    "js_get (JObj [(js_lit ''isDuplicate'', JBool True), (js_lit ''confidence'', JNum (71 / 100))])
       (js_lit ''confidence'') = Inr (JNum (71 / 100))"
    by (simp_all add: js_get_def js_lit_def)
  have "duplicateStatus (upload_duplicate_check ref_host read_image
       (reply_with (js_lit ''{\"isDuplicate\":true,\"confidence\":0.7}''))
       (js_lit ''receipt.jpg'') [scenario_match]) = js_lit ''detected''
     \<longleftrightarrow> True \<and> (7 / 10 :: rat) < 7 / 10"
    using upload_detects_iff_verdict_confirms [of ref_host read_image
        "reply_with (js_lit ''{\"isDuplicate\":true,\"confidence\":0.7}'')"
        "js_lit ''receipt.jpg''" "[scenario_match]"] gate v1 g1
    by blast
  then have n1: "duplicateStatus (upload_duplicate_check ref_host read_image
       (reply_with (js_lit ''{\"isDuplicate\":true,\"confidence\":0.7}''))
       (js_lit ''receipt.jpg'') [scenario_match]) \<noteq> js_lit ''detected''"
    by simp
  have r1: "duplicateStatus (upload_duplicate_check ref_host read_image
       (reply_with (js_lit ''{\"isDuplicate\":true,\"confidence\":0.7}''))
       (js_lit ''receipt.jpg'') [scenario_match]) = js_lit ''none''"
    using upload_detects_iff_verdict_confirms [of ref_host read_image
        "reply_with (js_lit ''{\"isDuplicate\":true,\"confidence\":0.7}'')"
        "js_lit ''receipt.jpg''" "[scenario_match]"] n1
    by blast
  have "duplicateStatus (upload_duplicate_check ref_host read_image
       (reply_with (js_lit ''{\"isDuplicate\":true,\"confidence\":0.71}''))
       (js_lit ''receipt.jpg'') [scenario_match]) = js_lit ''detected''
     \<longleftrightarrow> True \<and> (7 / 10 :: rat) < 71 / 100"
    using upload_detects_iff_verdict_confirms [of ref_host read_image
        "reply_with (js_lit ''{\"isDuplicate\":true,\"confidence\":0.71}'')"
        "js_lit ''receipt.jpg''" "[scenario_match]"] gate v2 g2
    by blast
  then have r2: "duplicateStatus (upload_duplicate_check ref_host read_image
       (reply_with (js_lit ''{\"isDuplicate\":true,\"confidence\":0.71}''))
       (js_lit ''receipt.jpg'') [scenario_match]) = js_lit ''detected''"
    by simp
  from r1 r2 show ?thesis by (rule conjI)
qed

end
